theory Spec2Isabelle
  imports Complex_Main "HOL-Library.Word" "HOL-Library.Log_Nat"
begin

unbundle bit_operations_syntax

section \<open>Python values, exceptions and effects\<close>

text \<open>
  The driver \<^verbatim>\<open>hb04.py\<close> is embedded function by function. A call either returns or
  raises; a raise is the left summand of \<open>exn + 'a\<close>. A finite \<^verbatim>\<open>float\<close> is the real
  number it stands for, and float operations round as the hardware does (below). Python's
  \<^verbatim>\<open>int\<close> is \<open>int\<close>, and bytes read from or written to the device are \<open>nat\<close> below 256.
\<close>

datatype exn =
    AssertionError
  | KeyError nat
  | IndexError
  | ValueError
  | OverflowError string
  | NameError string
  | UnboundLocalError string
  | AttributeError string
  | RuntimeError string
  | SystemExit int
  | HandlerError string

text \<open>\<^verbatim>\<open>except Exception\<close> does not catch \<^verbatim>\<open>SystemExit\<close>; a bare \<^verbatim>\<open>except:\<close> catches all.\<close>

definition is_Exception :: "exn \<Rightarrow> bool" where
  "is_Exception e = (case e of SystemExit _ \<Rightarrow> False | _ \<Rightarrow> True)"

text \<open>
  \<^verbatim>\<open>str(e)\<close>, the text an f-string puts in place of \<^verbatim>\<open>{e}\<close>. KeyError carries the
  missing key, NameError and UnboundLocalError the name, AttributeError the attribute;
  OverflowError, RuntimeError and a handler's own exception carry their message. IndexError
  is raised only by list indexing and ValueError only by \<^verbatim>\<open>bytes(p)\<close>. The text of
  UnboundLocalError is that of CPython 3.11 and later.
\<close>

function show_nat :: "nat \<Rightarrow> string" where
  "show_nat n =
     (if n < 10 then [''0123456789'' ! n]
      else show_nat (n div 10) @ [''0123456789'' ! (n mod 10)])"
  by pat_completeness auto
termination
  by (relation "measure (\<lambda>n. n)") auto

declare show_nat.simps [simp del]

definition show_int :: "int \<Rightarrow> string" where
  "show_int i = (if i < 0 then ''-'' @ show_nat (nat (- i)) else show_nat (nat i))"

definition quoted :: "string \<Rightarrow> string" where
  "quoted s = [CHR 0x27] @ s @ [CHR 0x27]"

definition str_exn :: "exn \<Rightarrow> string" where
  "str_exn e =
     (case e of
        AssertionError \<Rightarrow> []
      | KeyError k \<Rightarrow> show_nat k
      | IndexError \<Rightarrow> ''list index out of range''
      | ValueError \<Rightarrow> ''bytes must be in range(0, 256)''
      | OverflowError m \<Rightarrow> m
      | NameError n \<Rightarrow> ''name '' @ quoted n @ '' is not defined''
      | UnboundLocalError n \<Rightarrow>
          ''cannot access local variable '' @ quoted n @
          '' where it is not associated with a value''
      | AttributeError n \<Rightarrow> quoted ''hb04'' @ '' object has no attribute '' @ quoted n
      | RuntimeError m \<Rightarrow> m
      | SystemExit c \<Rightarrow> show_int c
      | HandlerError m \<Rightarrow> m)"

definition bindE :: "exn + 'a \<Rightarrow> ('a \<Rightarrow> exn + 'b) \<Rightarrow> exn + 'b" where
  "bindE m f = (case m of Inl e \<Rightarrow> Inl e | Inr x \<Rightarrow> f x)"

text \<open>
  What the driver does to the outside world, in order: lines printed, the traceback dump of
  \<^verbatim>\<open>fatal\<close>, control transfers handed to the USB device (request type, request, value,
  index, payload, timeout) and the attempt to give the device back to the kernel driver.
\<close>

datatype io =
    Print string
  | Traceback
  | CtrlTransfer nat nat nat nat "nat list" nat
  | AttachKernelDriver

text \<open>\<^verbatim>\<open>round(x)\<close> on a float: nearest integer, ties to the even one.\<close>

definition py_round :: "real \<Rightarrow> int" where
  "py_round x =
     (let f = \<lfloor>x\<rfloor>; d = x - of_int f
      in if d < 1 / 2 then f
         else if 1 / 2 < d then f + 1
         else if even f then f else f + 1)"

text \<open>\<^verbatim>\<open>int(x)\<close> on a float truncates towards zero.\<close>

definition py_int :: "real \<Rightarrow> int" where
  "py_int x = (if 0 \<le> x then \<lfloor>x\<rfloor> else \<lceil>x\<rceil>)"

text \<open>
  Python's \<^verbatim>\<open>float\<close> is IEEE 754 binary64. A finite float is a real number; an
  arithmetic operation returns the float nearest to the exact result, ties going to the
  even significand, and infinity once the exact result reaches \<open>2 ^ 1024 - 2 ^ 970\<close>.

  \<open>float_exponent x\<close> is the binary exponent of a positive \<open>x\<close> (\<open>2 ^ e \<le> x < 2 ^ (e + 1)\<close>),
  computed from bit lengths. \<open>ulp x\<close> is the spacing of the floats around \<open>x\<close>: 52
  fraction bits below the exponent, which stops at \<open>- 1022\<close> for subnormal numbers.
\<close>

definition float_exponent :: "real \<Rightarrow> int" where
  "float_exponent x =
     (if 1 \<le> x then bitlen \<lfloor>x\<rfloor> - 1 else - bitlen (\<lceil>1 / x\<rceil> - 1))"

definition ulp :: "real \<Rightarrow> real" where
  "ulp x = 2 powi (max (float_exponent \<bar>x\<bar>) (- 1022) - 52)"

definition round_float :: "real \<Rightarrow> real" where
  "round_float x = (if x = 0 then 0 else of_int (py_round (x / ulp x)) * ulp x)"

text \<open>The float an operation returns for the exact result \<open>x\<close>; \<open>None\<close> is infinity.\<close>

definition float_result :: "real \<Rightarrow> real option" where
  "float_result x = (if 2 ^ 1024 - 2 ^ 970 \<le> \<bar>x\<bar> then None else Some (round_float x))"

definition is_float :: "real \<Rightarrow> bool" where
  "is_float x = (float_result x = Some x)"

text \<open>
  \<^verbatim>\<open>n.to_bytes(2, 'little', signed=...)\<close>: two bytes, least significant first;
  OverflowError when \<open>n\<close> does not fit the two bytes in the chosen signedness.
\<close>

definition to_bytes2_little :: "bool \<Rightarrow> int \<Rightarrow> exn + nat list" where
  "to_bytes2_little is_signed n =
     (if is_signed
      then (if - 32768 \<le> n \<and> n \<le> 32767
            then Inr [nat (n mod 256), nat (n mod 65536 div 256)]
            else Inl (OverflowError ''int too big to convert''))
      else (if n < 0 then Inl (OverflowError ''can't convert negative int to unsigned'')
            else if n \<le> 65535
            then Inr [nat (n mod 256), nat (n div 256)]
            else Inl (OverflowError ''int too big to convert'')))"

text \<open>
  A dict literal as a map (a later entry for the same key wins), and \<^verbatim>\<open>d[k]\<close> on a
  table keyed by codes.
\<close>

definition dict_of :: "('k \<times> 'v) list \<Rightarrow> 'k \<rightharpoonup> 'v" where
  "dict_of kvs = map_of (rev kvs)"

definition getitem :: "(nat \<rightharpoonup> 'v) \<Rightarrow> nat \<Rightarrow> exn + 'v" where
  "getitem d k = (case d k of None \<Rightarrow> Inl (KeyError k) | Some v \<Rightarrow> Inr v)"

text \<open>A \<^verbatim>\<open>for\<close> loop over a list of indices whose body may raise.\<close>

fun for_loop :: "'i list \<Rightarrow> ('i \<Rightarrow> 's \<Rightarrow> exn + 's) \<Rightarrow> 's \<Rightarrow> exn + 's" where
  "for_loop [] body s = Inr s"
| "for_loop (i # is) body s =
     (case body i s of Inl e \<Rightarrow> Inl e | Inr s' \<Rightarrow> for_loop is body s')"


section \<open>Class \<^verbatim>\<open>Axis\<close>\<close>

record Axis =
  name :: string
  work_coordinate :: real
  machine_coordinate :: real
  integerAxis :: bool

text \<open>\<^verbatim>\<open>Axis.__init__\<close>: \<^verbatim>\<open>reset()\<close> zeroes both coordinates, then the flag and name are set.\<close>

definition Axis_init :: "string \<Rightarrow> bool \<Rightarrow> Axis" where
  "Axis_init n ia =
     \<lparr>name = n, work_coordinate = 0, machine_coordinate = 0, integerAxis = ia\<rparr>"

text \<open>
  \<^verbatim>\<open>encode_float\<close>. The product \<^verbatim>\<open>math.fabs(v)*10000.0\<close> and the true division
  \<^verbatim>\<open>int_v / 10000\<close> are float operations; \<^verbatim>\<open>round\<close> of an infinite product raises
  OverflowError, as does a true division whose result is no finite float.
\<close>

definition encode_float :: "real \<Rightarrow> exn + nat list" where
  "encode_float v =
     (case float_result (\<bar>v\<bar> * 10000) of
        None \<Rightarrow> Inl (OverflowError ''cannot convert float infinity to integer'')
      | Some scaled \<Rightarrow>
          (let int_v = py_round scaled
           in case float_result (of_int int_v / 10000) of
                None \<Rightarrow> Inl (OverflowError ''integer division result too large for a float'')
              | Some quot \<Rightarrow>
                  (let int_part = py_int quot AND 0xFFFF;
                       fract_part = (int_v mod 10000) AND 0xFFFF;
                       fract_part = (if v < 0 then fract_part OR 0x8000 else fract_part)
                   in bindE (to_bytes2_little False int_part) (\<lambda>result.
                      bindE (to_bytes2_little False fract_part) (\<lambda>fb. Inr (result @ fb))))))"

text \<open>\<^verbatim>\<open>limit_num\<close>; the literal \<^verbatim>\<open>9999.9999\<close> denotes the float nearest to it.\<close>

definition limit_num :: "Axis \<Rightarrow> real \<Rightarrow> real" where
  "limit_num self x =
     (let max_units = (if integerAxis self then 65535 else round_float 9999.9999);
          x = (if integerAxis self
               then (let xi = real_of_int (py_int x) in if xi < 0 then 0 else xi)
               else x)
      in if x > max_units then max_units
         else if x < - max_units then - max_units
         else x)"

definition encode_s16 :: "Axis \<Rightarrow> real \<Rightarrow> exn + nat list" where
  "encode_s16 self v = to_bytes2_little True (py_int (limit_num self v))"

definition display :: "Axis \<Rightarrow> real \<Rightarrow> exn + nat list" where
  "display self v = (if integerAxis self then encode_s16 self v else encode_float v)"

definition wc_display :: "Axis \<Rightarrow> exn + nat list" where
  "wc_display self = display self (work_coordinate self)"

definition mc_display :: "Axis \<Rightarrow> exn + nat list" where
  "mc_display self = display self (machine_coordinate self)"

definition actual :: "Axis \<Rightarrow> real" where
  "actual self = work_coordinate self"

definition setrate :: "Axis \<Rightarrow> real" where
  "setrate self = machine_coordinate self"

definition actual_display :: "Axis \<Rightarrow> exn + nat list" where
  "actual_display self = display self (actual self)"

definition setrate_display :: "Axis \<Rightarrow> exn + nat list" where
  "setrate_display self = display self (setrate self)"

definition sign_extend :: "int \<Rightarrow> int" where
  "sign_extend v = (if v > 127 then (256 - v) * (- 1) else v)"

text \<open>
  The pendant's side of the float format, which the repository does not contain. It
  follows the wording of the round-trip property: a little-endian integer field, a
  little-endian fractional field whose high bit is the sign and is masked off, recombined
  as integer part plus fraction over 10000.
\<close>

definition le16 :: "nat \<Rightarrow> nat \<Rightarrow> nat" where
  "le16 lo hi = lo + 256 * hi"

fun decode_float_spec :: "nat list \<Rightarrow> real option" where
  "decode_float_spec [i0, i1, f0, f1] =
     (let int_field = le16 i0 i1;
          fract_field = le16 f0 f1;
          fract = fract_field AND 0x7FFF;
          mag = real int_field + real fract / 10000
      in Some (if bit fract_field 15 then - mag else mag))"
| "decode_float_spec _ = None"


section \<open>Protocol tables\<close>

text \<open>
  The dictionaries built by \<^verbatim>\<open>hb04.reset\<close>. They are never written afterwards, so
  they are constants here. The inverse tables come from the dict comprehension
  \<^verbatim>\<open>{v: k for k, v in d.items()}\<close>.
\<close>

definition button_names :: "(string \<times> nat) list" where
  "button_names =
     [([], 0x0),
      (''reset'', 0x17), (''stop'', 0x16),
      (''go-zero'', 0x01), (''start'', 0x02), (''rewind'', 0x03), (''probe-z'', 0x04),
      (''spindle'', 0x0C), (''half'', 0x06), (''zero'', 0x07), (''safe-z'', 0x08),
      (''go-home'', 0x09), (''macro1'', 0x0A), (''macro2'', 0x0B), (''macro3'', 0x05),
      (''step'', 0x0D), (''mode'', 0x0E), (''macro6'', 0x0F), (''macro7'', 0x10)]"

definition multiplier_values :: "(string \<times> nat) list" where
  "multiplier_values =
     [([], 0x0),
      (''1'', 0x1), (''5'', 0x2),
      (''10'', 0x3), (''20'', 0x4), (''30'', 0x5), (''40'', 0x6), (''50'', 0x7),
      (''100'', 0x8), (''500'', 0x9),
      (''1000'', 0xA),
      (''P6'', 0xB)]"

definition icon_values :: "(string \<times> nat) list" where
  "icon_values =
     [(''no-icon'', 0x0),
      (''go-zero'', 0x10),
      (''no-touchoff'', 0x20),
      (''go-home'', 0x50),
      (''j-squiggily'', 0x60)]"

definition units_values :: "(string \<times> nat) list" where
  "units_values = [(''mm'', 0), (''inch'', 0x80)]"

definition axis_select_switch :: "(string \<times> nat) list" where
  "axis_select_switch =
     [(''off'', 0x00),
      (''x'', 0x11),
      (''y'', 0x12),
      (''z'', 0x13),
      (''a'', 0x18),
      (''spindle'', 0x14),
      (''feed'', 0x15)]"

definition inverse_table :: "('k \<times> 'v) list \<Rightarrow> 'v \<rightharpoonup> 'k" where
  "inverse_table d = dict_of (map (\<lambda>(k, v). (v, k)) d)"

definition code2Button :: "nat \<rightharpoonup> string" where
  "code2Button = inverse_table button_names"

definition code2Axis :: "nat \<rightharpoonup> string" where
  "code2Axis = inverse_table axis_select_switch"

definition code2Range :: "nat \<rightharpoonup> string" where
  "code2Range = inverse_table multiplier_values"


section \<open>Class \<^verbatim>\<open>hb04\<close>: state\<close>

text \<open>
  The attributes of the driver object that its methods read and write. The eight axis
  objects are reachable both as attributes (\<^verbatim>\<open>self.x\<close>) and through
  \<^verbatim>\<open>self.axis_list\<close>; both name the same object, so one map holds them. The USB handle
  is outside the state: what is sent to it is appended to \<open>out\<close>, together with the
  lines printed.
\<close>

record hb04 =
  axis_list :: "string \<rightharpoonup> Axis"
  icon :: nat
  units :: nat
  multiplier_code :: nat
  axis_switch :: string
  reattach :: bool
  reconnecting :: bool
  running :: bool
  disconnecting :: bool
  out :: "io list"

text \<open>
  \<^verbatim>\<open>hb04.reset\<close>. The attribute \<^verbatim>\<open>disconnecting\<close> is first assigned (to False) by
  \<^verbatim>\<open>connect_hb04\<close>, which the constructor starts right after \<^verbatim>\<open>reset\<close>.
\<close>

definition hb04_reset :: hb04 where
  "hb04_reset =
     \<lparr>axis_list = dict_of
        (map (\<lambda>n. (n, Axis_init n False)) [''x'', ''y'', ''z'', ''a''] @
         map (\<lambda>n. (n, Axis_init n True))
           [''feed'', ''feed-actual'', ''spindle'', ''spindle-actual'']),
      icon = 0,
      units = 0,
      multiplier_code = 1,
      axis_switch = ''off'',
      reattach = False,
      reconnecting = False,
      running = False,
      disconnecting = False,
      out = []\<rparr>"

text \<open>Reading an axis attribute such as \<^verbatim>\<open>self.x\<close>.\<close>

definition getattr_axis :: "hb04 \<Rightarrow> string \<Rightarrow> exn + Axis" where
  "getattr_axis self n =
     (case axis_list self n of None \<Rightarrow> Inl (AttributeError n) | Some a \<Rightarrow> Inr a)"

definition print :: "string \<Rightarrow> hb04 \<Rightarrow> hb04" where
  "print line self = self\<lparr>out := out self @ [Print line]\<rparr>"

text \<open>
  \<^verbatim>\<open>disconnect\<close>: when the kernel driver was detached, the device is asked to take it
  back; any failure of that request is ignored.
\<close>

definition disconnect :: "hb04 \<Rightarrow> hb04" where
  "disconnect self =
     (let self = self\<lparr>running := False, disconnecting := True\<rparr>
      in if reattach self then self\<lparr>out := out self @ [AttachKernelDriver]\<rparr> else self)"

text \<open>\<^verbatim>\<open>fatal\<close> never returns: it ends by raising \<^verbatim>\<open>SystemExit(1)\<close>.\<close>

definition fatal :: "string \<Rightarrow> hb04 \<Rightarrow> exn \<times> hb04" where
  "fatal msg self =
     (let self = print (''### FATAL: '' @ msg) self;
          self = self\<lparr>out := out self @ [Traceback]\<rparr>;
          self = disconnect self
      in (SystemExit 1, self))"

definition isRunning :: "hb04 \<Rightarrow> bool" where
  "isRunning self = (running self \<or> reconnecting self)"


section \<open>Display update\<close>

definition ctrl_transfer :: "nat list \<Rightarrow> io" where
  "ctrl_transfer payload = CtrlTransfer 0x21 0x09 0x0306 0x00 payload 1000"

text \<open>The padding loop \<^verbatim>\<open>while len(data) < 42: data.append(0)\<close>.\<close>

function pad_data :: "nat list \<Rightarrow> nat list" where
  "pad_data data = (if length data < 42 then pad_data (data @ [0]) else data)"
  by pat_completeness auto
termination
  by (relation "measure (\<lambda>data. 42 - length data)") auto

declare pad_data.simps [simp del]

text \<open>
  One turn of the inner loop. \<^verbatim>\<open>pd\<close> is the list appended to \<^verbatim>\<open>packets\<close> last, so
  appending to \<^verbatim>\<open>pd\<close> extends the last packet; before any packet exists \<^verbatim>\<open>pd\<close> is
  unbound.
\<close>

definition packet_byte :: "nat list \<Rightarrow> nat \<Rightarrow> nat list list \<times> nat \<Rightarrow> exn + nat list list \<times> nat" where
  "packet_byte data i st =
     (case st of (packets, data_idx) \<Rightarrow>
        if i = 0 then Inr (packets @ [[0x6]], data_idx)
        else if packets = [] then Inl (UnboundLocalError ''pd'')
        else if length data \<le> data_idx then Inl IndexError
        else Inr (butlast packets @ [last packets @ [data ! data_idx]], data_idx + 1))"

definition make_packets :: "nat list \<Rightarrow> exn + nat list list \<times> nat" where
  "make_packets data =
     for_loop [0..<6] (\<lambda>packet. for_loop [0..<8] (packet_byte data)) ([], 0)"

text \<open>
  The sending loop. \<^verbatim>\<open>bytes(p)\<close> stands outside the \<^verbatim>\<open>try\<close> and raises ValueError
  for an element that is no byte; whatever the transfer itself raises or returns is
  ignored.
\<close>

fun send_packets :: "nat list list \<Rightarrow> hb04 \<Rightarrow> (exn + unit) \<times> hb04" where
  "send_packets [] self = (Inr (), self)"
| "send_packets (p # ps) self =
     (if list_ex (\<lambda>b. 256 \<le> b) p then (Inl ValueError, self)
      else send_packets ps (self\<lparr>out := out self @ [ctrl_transfer p]\<rparr>))"

definition sendData :: "nat list \<Rightarrow> hb04 \<Rightarrow> (exn + unit) \<times> hb04" where
  "sendData data self =
     (case make_packets (pad_data data) of
        Inl e \<Rightarrow> (Inl e, self)
      | Inr (packets, data_idx) \<Rightarrow> send_packets packets self)"

text \<open>\<^verbatim>\<open>data.extend(...)\<close> for each field in turn; the first field that raises ends it.\<close>

fun extend_all :: "nat list \<Rightarrow> (exn + nat list) list \<Rightarrow> exn + nat list" where
  "extend_all data [] = Inr data"
| "extend_all data (part # parts) =
     (case part of Inl e \<Rightarrow> Inl e | Inr bs \<Rightarrow> extend_all (data @ bs) parts)"

definition updateDisplay_data :: "hb04 \<Rightarrow> exn + nat list" where
  "updateDisplay_data self =
     (let xa = (if axis_switch self = ''a'' then ''a'' else ''x'')
      in bindE
           (extend_all [0xFE, 0xFD, 0x0C]
              [bindE (getattr_axis self xa) wc_display,
               bindE (getattr_axis self ''y'') wc_display,
               bindE (getattr_axis self ''z'') wc_display,
               bindE (getattr_axis self xa) mc_display,
               bindE (getattr_axis self ''y'') mc_display,
               bindE (getattr_axis self ''z'') mc_display,
               bindE (getattr_axis self ''feed'') actual_display,
               bindE (getattr_axis self ''spindle'') actual_display,
               bindE (getattr_axis self ''feed'') setrate_display,
               bindE (getattr_axis self ''spindle'') setrate_display])
           (\<lambda>data. Inr (data @ [icon self OR multiplier_code self] @ [units self])))"

definition updateDisplay :: "hb04 \<Rightarrow> (exn + unit) \<times> hb04" where
  "updateDisplay self =
     (case updateDisplay_data self of
        Inl e \<Rightarrow> (Inl e, self)
      | Inr data \<Rightarrow> sendData data self)"

definition forceDisplayUpdate :: "hb04 \<Rightarrow> (exn + unit) \<times> hb04" where
  "forceDisplayUpdate self =
     (case updateDisplay self of
        (Inr u, self') \<Rightarrow> (Inr (), self')
      | (Inl e, self') \<Rightarrow>
          if is_Exception e
          then (case fatal (''updateDisplay failing with '' @ str_exn e) self' of
                  (x, self'') \<Rightarrow> (Inl x, self''))
          else (Inl e, self'))"


section \<open>The pendant interface\<close>

text \<open>
  The body of the \<^verbatim>\<open>try\<close> in \<^verbatim>\<open>axis_value\<close>, then the method itself: the bare
  \<^verbatim>\<open>except: pass\<close> drops whatever the body raised, and the display is refreshed.
\<close>

definition axis_value_try :: "string \<Rightarrow> real option \<Rightarrow> real option \<Rightarrow> hb04 \<Rightarrow> (exn + unit) \<times> hb04" where
  "axis_value_try axis_name wc mc self =
     (case axis_list self axis_name of
        Some axis \<Rightarrow>
          (let axis = (case wc of None \<Rightarrow> axis | Some w \<Rightarrow> axis\<lparr>work_coordinate := w\<rparr>);
               axis = (case mc of None \<Rightarrow> axis | Some m \<Rightarrow> axis\<lparr>machine_coordinate := m\<rparr>)
           in (Inr (), self\<lparr>axis_list := (axis_list self)(axis_name \<mapsto> axis)\<rparr>))
      | None \<Rightarrow>
          (case fatal (''### Can't find axis '' @ axis_name) self of
             (x, self') \<Rightarrow> (Inl x, self')))"

definition axis_value :: "string \<Rightarrow> real option \<Rightarrow> real option \<Rightarrow> hb04 \<Rightarrow> (exn + unit) \<times> hb04" where
  "axis_value axis_name wc mc self =
     (case axis_value_try axis_name wc mc self of
        (outcome, self') \<Rightarrow> forceDisplayUpdate self')"

definition display_attributes :: "string list" where
  "display_attributes =
     map fst units_values @ map fst icon_values @ map fst multiplier_values"

text \<open>
  \<^verbatim>\<open>set_display_attribute\<close>. The warning for an unknown attribute is an f-string that
  interpolates \<^verbatim>\<open>value\<close>, a name bound neither in the method nor in the module, so
  building the line raises NameError before anything is printed.
\<close>

definition set_display_attribute :: "string \<Rightarrow> hb04 \<Rightarrow> (exn + unit) \<times> hb04" where
  "set_display_attribute attribute self =
     (if attribute \<notin> set display_attributes then (Inl (NameError ''value''), self)
      else case dict_of units_values attribute of
        Some c \<Rightarrow> forceDisplayUpdate (self\<lparr>units := c\<rparr>)
      | None \<Rightarrow>
         (case dict_of icon_values attribute of
            Some c \<Rightarrow> forceDisplayUpdate (self\<lparr>icon := c\<rparr>)
          | None \<Rightarrow>
             (case dict_of multiplier_values attribute of
                Some c \<Rightarrow> forceDisplayUpdate (self\<lparr>multiplier_code := c\<rparr>)
              | None \<Rightarrow>
                  (Inl (RuntimeError (''### Can't happen -- missing '' @ attribute)), self))))"


section \<open>Inbound reports\<close>

text \<open>
  The dict handed to the event handler. A handler is any callable: it gets the event,
  may call back into the driver, and returns or raises.
\<close>

record event =
  button :: string
  button2 :: string
  axis :: string
  increment :: int

type_synonym handler = "event \<Rightarrow> hb04 \<Rightarrow> exn option \<times> hb04"

text \<open>
  The driver together with its handler slot. \<open>invoked\<close> is a ghost field: the events
  with which the handler was called, oldest first.
\<close>

record session =
  hb :: hb04
  machine_event_handler :: "handler option"
  invoked :: "event list"

definition session_init :: session where
  "session_init = \<lparr>hb = hb04_reset, machine_event_handler = None, invoked = []\<rparr>"

definition set_event_handler :: "handler option \<Rightarrow> session \<Rightarrow> session" where
  "set_event_handler h s = s\<lparr>machine_event_handler := h\<rparr>"

text \<open>The dict display inside the handler call: the two button lookups may raise.\<close>

definition make_event :: "nat list \<Rightarrow> hb04 \<Rightarrow> exn + event" where
  "make_event data self =
     bindE (getitem code2Button (data ! 1)) (\<lambda>b1.
     bindE (getitem code2Button (data ! 2)) (\<lambda>b2.
       Inr \<lparr>button = b1, button2 = b2, axis = axis_switch self,
            increment = sign_extend (int (data ! 4))\<rparr>))"

text \<open>The body of the \<^verbatim>\<open>try\<close> in \<^verbatim>\<open>newUSBEvent\<close>.\<close>

definition newUSBEvent_try :: "nat list \<Rightarrow> session \<Rightarrow> (exn + unit) \<times> session" where
  "newUSBEvent_try data s =
     (case machine_event_handler s of
        None \<Rightarrow> (Inr (), s)
      | Some h \<Rightarrow>
          (case make_event data (hb s) of
             Inl e \<Rightarrow> (Inl e, s)
           | Inr ev \<Rightarrow>
               (case h ev (hb s) of
                  (r, self') \<Rightarrow>
                    ((case r of None \<Rightarrow> Inr () | Some e \<Rightarrow> Inl e),
                     s\<lparr>hb := self', invoked := invoked s @ [ev]\<rparr>))))"

text \<open>
  \<^verbatim>\<open>newUSBEvent\<close>: the assertion and the axis lookup stand before the \<^verbatim>\<open>try\<close>; what
  the \<^verbatim>\<open>try\<close> body raises is dropped by \<^verbatim>\<open>except: pass\<close>.
\<close>

definition newUSBEvent :: "nat list \<Rightarrow> session \<Rightarrow> (exn + unit) \<times> session" where
  "newUSBEvent data s =
     (if length data \<noteq> 6 then (Inl AssertionError, s)
      else case getitem code2Axis (data ! 3) of
        Inl e \<Rightarrow> (Inl e, s)
      | Inr sw \<Rightarrow>
          (case newUSBEvent_try data (s\<lparr>hb := (hb s)\<lparr>axis_switch := sw\<rparr>\<rparr>) of
             (outcome, s') \<Rightarrow> (Inr (), s')))"

text \<open>
  The receive loop, run on the reads the device delivers: a read either returns data or
  times out. (The other USB errors start the reconnect thread or poll for the device and
  are not part of this model.) The loop ends when \<^verbatim>\<open>running\<close> is cleared; anything
  \<^verbatim>\<open>newUSBEvent\<close> raises goes to \<^verbatim>\<open>fatal\<close>.
\<close>

datatype usb_read = Data "nat list" | Timeout

fun receiveUSBEvents :: "usb_read list \<Rightarrow> session \<Rightarrow> (exn + unit) \<times> session" where
  "receiveUSBEvents [] s = (Inr (), s)"
| "receiveUSBEvents (r # rs) s =
     (if \<not> running (hb s) then (Inr (), s)
      else case r of
        Timeout \<Rightarrow> receiveUSBEvents rs s
      | Data data \<Rightarrow>
          (case newUSBEvent data s of
             (Inr u, s') \<Rightarrow> receiveUSBEvents rs s'
           | (Inl e, s') \<Rightarrow>
               (case fatal ''### Programmer error!!###'' (hb s') of
                  (x, self') \<Rightarrow> (Inl x, s'\<lparr>hb := self'\<rparr>))))"


section \<open>Sample handlers and the condition of a failed decode\<close>

text \<open>Handlers for concrete runs: one returns, one raises.\<close>

definition ok_handler :: handler where
  "ok_handler ev self = (None, self)"

definition raising_handler :: handler where
  "raising_handler ev self = (Some (HandlerError ''boom''), self)"

text \<open>
  A handler that fails the way the demo's \<^verbatim>\<open>pendantEvents\<close> does: it calls \<^verbatim>\<open>fatal\<close>
  on the driver, and the \<^verbatim>\<open>SystemExit\<close> of \<^verbatim>\<open>fatal\<close> leaves the handler.
\<close>

definition failing_handler :: handler where
  "failing_handler ev self =
     (case fatal ''### WHOOPS! I did a boo boo'' self of (x, self') \<Rightarrow> (Some x, self'))"

text \<open>The driver while listening (\<^verbatim>\<open>startListening\<close> has set \<^verbatim>\<open>running\<close>), handler registered.\<close>

definition listening :: "handler \<Rightarrow> session" where
  "listening h =
     \<lparr>hb = hb04_reset\<lparr>running := True\<rparr>, machine_event_handler = Some h, invoked = []\<rparr>"

text \<open>
  When the decode of a report counts as failed, in the words of the decode property: the
  length is not 6, or the button1, button2 or axis-switch byte has no table entry.
\<close>

definition decode_fails_spec :: "nat list \<Rightarrow> bool" where
  "decode_fails_spec data =
     (length data \<noteq> 6 \<or> code2Button (data ! 1) = None \<or> code2Button (data ! 2) = None \<or>
      code2Axis (data ! 3) = None)"


section \<open>Floats: auxiliary facts\<close>

lemma py_round_nonneg: "0 \<le> x \<Longrightarrow> 0 \<le> py_round x"
  by (simp add: py_round_def Let_def)

lemma py_round_near: "\<bar>real_of_int (py_round x) - x\<bar> \<le> 1 / 2"
  unfolding py_round_def Let_def by (simp; linarith)

lemma py_round_le:
  assumes "x \<le> real_of_int N"
  shows "py_round x \<le> N"
proof (cases "\<lfloor>x\<rfloor> = N")
  case True
  then have "x - real_of_int \<lfloor>x\<rfloor> \<le> 0"
    using assms by simp
  then show ?thesis
    using True by (simp add: py_round_def Let_def)
next
  case False
  moreover have "\<lfloor>x\<rfloor> \<le> N"
    using assms by (simp add: floor_le_iff)
  ultimately have "\<lfloor>x\<rfloor> + 1 \<le> N"
    by simp
  then show ?thesis
    by (simp add: py_round_def Let_def)
qed

lemma py_round_ge:
  assumes "real_of_int N \<le> x"
  shows "N \<le> py_round x"
proof -
  have "N \<le> \<lfloor>x\<rfloor>"
    using assms by (simp add: le_floor_iff)
  then show ?thesis
    by (simp add: py_round_def Let_def)
qed

lemma py_round_of_int: "py_round (real_of_int n) = n"
  by (simp add: py_round_def)

text \<open>\<open>float_exponent\<close> is the binary exponent: \<open>2 ^ e \<le> x < 2 ^ (e + 1)\<close>.\<close>

lemma float_exponent_le:
  assumes "0 < x"
  shows "2 powi float_exponent x \<le> x"
proof (cases "1 \<le> x")
  case True
  define n where "n = \<lfloor>x\<rfloor>"
  have n: "0 < n"
    using True by (simp add: n_def)
  then have "1 \<le> bitlen n"
    by (simp add: bitlen_alt_def)
  then have "2 powi (bitlen n - 1) = (2::real) ^ nat (bitlen n - 1)"
    by (simp add: power_int_nonneg_exp)
  also have "\<dots> = real_of_int (2 ^ nat (bitlen n - 1))"
    by simp
  also have "\<dots> \<le> real_of_int n"
    using bitlen_bounds[OF n] by (simp only: of_int_le_iff)
  also have "\<dots> \<le> x"
    by (simp add: n_def)
  finally show ?thesis
    using True by (simp add: float_exponent_def n_def)
next
  case False
  define m where "m = \<lceil>1 / x\<rceil> - 1"
  have y: "1 < 1 / x"
    using False assms by simp
  then have "2 \<le> \<lceil>1 / x\<rceil>"
    by (simp add: le_ceiling_iff)
  then have m: "0 < m"
    by (simp add: m_def)
  have "m < 2 ^ nat (bitlen m)"
    using bitlen_bounds[OF m] by simp
  then have "m + 1 \<le> 2 ^ nat (bitlen m)"
    by simp
  then have "real_of_int (m + 1) \<le> real_of_int (2 ^ nat (bitlen m))"
    by (simp only: of_int_le_iff)
  moreover have "1 / x \<le> real_of_int (m + 1)"
    by (simp add: m_def)
  ultimately have "1 / x \<le> 2 ^ nat (bitlen m)"
    by simp
  then have "1 / 2 ^ nat (bitlen m) \<le> x"
    using assms by (simp add: field_simps)
  moreover have "2 powi (- bitlen m) = 1 / (2::real) ^ nat (bitlen m)"
    using bitlen_nonneg[of m] by (simp add: power_int_minus_divide power_int_nonneg_exp)
  ultimately show ?thesis
    using False by (simp add: float_exponent_def m_def)
qed

lemma float_exponent_upper:
  assumes "0 < x"
  shows "x < 2 powi (float_exponent x + 1)"
proof (cases "1 \<le> x")
  case True
  define n where "n = \<lfloor>x\<rfloor>"
  have n: "0 < n"
    using True by (simp add: n_def)
  then have b: "1 \<le> bitlen n"
    by (simp add: bitlen_alt_def)
  have "n < 2 ^ nat (bitlen n)"
    using bitlen_bounds[OF n] by simp
  then have "n + 1 \<le> 2 ^ nat (bitlen n)"
    by simp
  then have "real_of_int (n + 1) \<le> real_of_int (2 ^ nat (bitlen n))"
    by (simp only: of_int_le_iff)
  moreover have "x < real_of_int (n + 1)"
    by (simp add: n_def)
  ultimately have "x < 2 ^ nat (bitlen n)"
    by simp
  moreover have "2 powi (bitlen n - 1 + 1) = (2::real) ^ nat (bitlen n)"
    using b by (simp add: power_int_nonneg_exp)
  ultimately show ?thesis
    using True by (simp add: float_exponent_def n_def)
next
  case False
  define m where "m = \<lceil>1 / x\<rceil> - 1"
  have y: "1 < 1 / x"
    using False assms by simp
  then have "2 \<le> \<lceil>1 / x\<rceil>"
    by (simp add: le_ceiling_iff)
  then have m: "0 < m"
    by (simp add: m_def)
  then have b: "1 \<le> bitlen m"
    by (simp add: bitlen_alt_def)
  have "real_of_int (2 ^ nat (bitlen m - 1)) \<le> real_of_int m"
    using bitlen_bounds[OF m] by (simp only: of_int_le_iff)
  also have "real_of_int m < 1 / x"
    unfolding m_def by linarith
  finally have "2 ^ nat (bitlen m - 1) < 1 / x"
    by simp
  then have "x < 1 / 2 ^ nat (bitlen m - 1)"
    using assms by (simp add: field_simps)
  moreover have "2 powi (- bitlen m + 1) = 1 / (2::real) ^ nat (bitlen m - 1)"
  proof -
    have "- bitlen m + 1 = - (bitlen m - 1)"
      by simp
    then have "(2::real) powi (- bitlen m + 1) = 2 powi (- (bitlen m - 1))"
      by (rule arg_cong)
    also have "\<dots> = 1 / 2 powi (bitlen m - 1)"
      by (rule power_int_minus_divide)
    also have "\<dots> = 1 / 2 ^ nat (bitlen m - 1)"
      using b by (simp add: power_int_nonneg_exp)
    finally show ?thesis .
  qed
  ultimately show ?thesis
    using False by (simp add: float_exponent_def m_def)
qed

lemma float_exponent_less:
  assumes "0 < x" "x < 2 powi k"
  shows "float_exponent x < k"
proof (rule ccontr)
  assume "\<not> float_exponent x < k"
  then have "k \<le> float_exponent x"
    by simp
  then have "(2::real) powi k \<le> 2 powi float_exponent x"
    by (intro power_int_increasing) simp_all
  also have "\<dots> \<le> x"
    using assms(1) by (rule float_exponent_le)
  finally show False
    using assms(2) by simp
qed

lemma ulp_pos: "0 < ulp x"
  by (simp add: ulp_def)

lemma float_exponent_0: "float_exponent 0 = 0"
  by (simp add: float_exponent_def bitlen_alt_def)

lemma ulp_le:
  assumes "1 \<le> k" "\<bar>x\<bar> < 2 powi k"
  shows "ulp x \<le> 2 powi (k - 53)"
proof -
  have "float_exponent \<bar>x\<bar> < k"
  proof (cases "x = 0")
    case True
    then show ?thesis
      using assms(1) by (simp add: float_exponent_0)
  next
    case False
    then show ?thesis
      using assms(2) by (intro float_exponent_less) simp_all
  qed
  then have "max (float_exponent \<bar>x\<bar>) (- 1022) - 52 \<le> k - 53"
    using assms(1) by simp
  then show ?thesis
    unfolding ulp_def by (intro power_int_increasing) simp_all
qed

lemma abs_scale:
  fixes a x u :: real
  assumes "0 < u"
  shows "\<bar>a - x / u\<bar> * u = \<bar>a * u - x\<bar>"
proof -
  have "\<bar>a - x / u\<bar> * u = \<bar>a - x / u\<bar> * \<bar>u\<bar>"
    using assms by simp
  also have "\<dots> = \<bar>(a - x / u) * u\<bar>"
    by (simp only: abs_mult)
  also have "(a - x / u) * u = a * u - x"
    using assms by (simp add: left_diff_distrib)
  finally show ?thesis .
qed

lemma round_float_near: "\<bar>round_float x - x\<bar> \<le> ulp x / 2"
proof (cases "x = 0")
  case True
  then show ?thesis
    using ulp_pos[of x] by (simp add: round_float_def)
next
  case False
  have "\<bar>real_of_int (py_round (x / ulp x)) - x / ulp x\<bar> * ulp x \<le> 1 / 2 * ulp x"
    using py_round_near[of "x / ulp x"] ulp_pos[of x] by (intro mult_right_mono) simp_all
  then have "\<bar>real_of_int (py_round (x / ulp x)) * ulp x - x\<bar> \<le> 1 / 2 * ulp x"
    by (simp only: abs_scale[OF ulp_pos])
  then show ?thesis
    using False by (simp add: round_float_def)
qed

lemma round_float_nonneg: "0 \<le> x \<Longrightarrow> 0 \<le> round_float x"
  using ulp_pos[of x] by (simp add: round_float_def py_round_nonneg)

text \<open>Below \<open>2 ^ 53\<close> the spacing of the floats divides 1.\<close>

lemma ulp_small:
  assumes "\<bar>x\<bar> < 2 ^ 53"
  shows "\<exists>j::nat. ulp x = 1 / 2 ^ j"
proof -
  define m where "m = max (float_exponent \<bar>x\<bar>) (- 1022) - 52"
  have "float_exponent \<bar>x\<bar> < 53"
  proof (cases "x = 0")
    case True
    then show ?thesis by (simp add: float_exponent_0)
  next
    case False
    then show ?thesis
      using assms by (intro float_exponent_less) simp_all
  qed
  then have "m \<le> 0"
    by (simp add: m_def)
  then have "(2::real) powi m = 1 / 2 ^ nat (- m)"
    using power_int_minus_divide[of "2::real" "- m"] by (simp add: power_int_nonneg_exp)
  then show ?thesis
    unfolding ulp_def m_def by blast
qed

lemma round_float_le_int:
  assumes "x \<le> real_of_int N" "\<bar>x\<bar> < 2 ^ 53"
  shows "round_float x \<le> real_of_int N"
proof (cases "x = 0")
  case True
  then show ?thesis
    using assms by (simp add: round_float_def)
next
  case False
  obtain j :: nat where u: "ulp x = 1 / 2 ^ j"
    using ulp_small[OF assms(2)] by blast
  have "x / ulp x \<le> real_of_int (N * 2 ^ j)"
    using assms(1) by (simp add: u)
  then have "py_round (x / ulp x) \<le> N * 2 ^ j"
    by (rule py_round_le)
  then have "real_of_int (py_round (x / ulp x)) \<le> real_of_int (N * 2 ^ j)"
    by (simp only: of_int_le_iff)
  then have "real_of_int (py_round (x / ulp x)) * ulp x \<le> real_of_int N"
    by (simp add: u field_simps)
  then show ?thesis
    using False by (simp add: round_float_def)
qed

lemma round_float_ge_int:
  assumes "real_of_int N \<le> x" "\<bar>x\<bar> < 2 ^ 53"
  shows "real_of_int N \<le> round_float x"
proof (cases "x = 0")
  case True
  then show ?thesis
    using assms by (simp add: round_float_def)
next
  case False
  obtain j :: nat where u: "ulp x = 1 / 2 ^ j"
    using ulp_small[OF assms(2)] by blast
  have "real_of_int (N * 2 ^ j) \<le> x / ulp x"
    using assms(1) by (simp add: u)
  then have "N * 2 ^ j \<le> py_round (x / ulp x)"
    by (rule py_round_ge)
  then have "real_of_int (N * 2 ^ j) \<le> real_of_int (py_round (x / ulp x))"
    by (simp only: of_int_le_iff)
  then have "real_of_int N \<le> real_of_int (py_round (x / ulp x)) * ulp x"
    by (simp add: u field_simps)
  then show ?thesis
    using False by (simp add: round_float_def)
qed

lemma round_float_of_int:
  assumes "\<bar>real_of_int n\<bar> < 2 ^ 53"
  shows "round_float (real_of_int n) = real_of_int n"
  using round_float_le_int[of "real_of_int n" n] round_float_ge_int[of n "real_of_int n"] assms
  by simp

lemma float_result_small:
  assumes "\<bar>x\<bar> < 2 ^ 53"
  shows "float_result x = Some (round_float x)"
proof -
  have "(2::real) ^ 53 \<le> 2 ^ 1024 - 2 ^ 970"
    by simp
  then show ?thesis
    using assms by (simp only: float_result_def) auto
qed

text \<open>Powers of two from \<open>2 ^ 52\<close> on are floats.\<close>

lemma fl_pow2: "\<lfloor>(2::real) ^ w\<rfloor> = 2 ^ w"
proof -
  have "(2::real) ^ w = real_of_int (2 ^ w)"
    by simp
  then show ?thesis
    by (simp only: floor_of_int)
qed

lemma bl_pow2: "bitlen (2 ^ w) = int w + 1"
  using bitlen_twopow_add_eq[of 0 w] by simp

lemma e_pow2: "float_exponent ((2::real) ^ w) = int w"
  by (simp add: float_exponent_def fl_pow2 bl_pow2)

lemma pow2_split:
  fixes w :: nat
  assumes "52 \<le> w"
  shows "(2::real) ^ w = 2 ^ (w - 52) * 2 ^ 52"
proof -
  have "w = (w - 52) + 52"
    using assms by simp
  then have "(2::real) ^ w = 2 ^ ((w - 52) + 52)"
    by (rule arg_cong)
  then show ?thesis
    by (simp only: power_add)
qed

lemma ulp_pow2:
  fixes w :: nat
  assumes "52 \<le> w"
  shows "ulp (2 ^ w) = 2 ^ (w - 52)"
proof -
  have "max (int w) (- 1022) - 52 = int w - 52"
    by simp
  also have "\<dots> = int (w - 52)"
    using assms by simp
  finally have "(2::real) powi (max (int w) (- 1022) - 52) = 2 powi int (w - 52)"
    by (rule arg_cong)
  moreover have "\<bar>(2::real) ^ w\<bar> = 2 ^ w"
    by simp
  ultimately show ?thesis
    by (simp only: ulp_def e_pow2 power_int_of_nat)
qed

lemma round_float_pow2:
  fixes w :: nat
  assumes "52 \<le> w"
  shows "round_float (2 ^ w) = 2 ^ w"
proof -
  have u: "ulp (2 ^ w) = 2 ^ (w - 52)"
    using assms by (rule ulp_pow2)
  have "(2::real) ^ w / 2 ^ (w - 52) = 2 ^ (w - 52) * 2 ^ 52 / 2 ^ (w - 52)"
    using pow2_split[OF assms] by (rule arg_cong)
  also have "\<dots> = 2 ^ 52"
    by simp
  also have "\<dots> = real_of_int (2 ^ 52)"
    by simp
  finally have "py_round ((2::real) ^ w / ulp (2 ^ w)) = 2 ^ 52"
    by (simp only: u py_round_of_int)
  then have "round_float (2 ^ w) = real_of_int (2 ^ 52) * 2 ^ (w - 52)"
    by (simp add: round_float_def u)
  also have "\<dots> = 2 ^ (w - 52) * 2 ^ 52"
    by simp
  also have "\<dots> = 2 ^ w"
    using pow2_split[OF assms] by (rule sym)
  finally show ?thesis .
qed

lemma float_2_1020: "is_float (2 ^ 1020)"
proof -
  have "round_float (2 ^ 1020) = (2::real) ^ 1020"
    by (rule round_float_pow2) simp
  moreover have "\<not> (2::real) ^ 1024 - 2 ^ 970 \<le> \<bar>2 ^ 1020\<bar>"
    by simp
  ultimately show ?thesis
    by (simp only: is_float_def float_result_def if_False)
qed

lemma threshold_facts:
  "(2::real) ^ 1024 - 2 ^ 970 < 2 ^ 1024"
  "((2::real) ^ 1024 + 1 / 2) / 10000 < 2 ^ 1024 - 2 ^ 970"
  "(2::real) powi (1024 - 53) / 2 = 2 ^ 970"
  by simp_all


section \<open>Codec: auxiliary facts\<close>

lemma and_mask16: "(x::int) AND 0xFFFF = x mod 65536"
  using take_bit_eq_mask[of 16 x] by (simp add: take_bit_eq_mod mask_eq_exp_minus_1)

lemma and_mask15_nat: "(n::nat) AND 0x7FFF = n mod 32768"
  using take_bit_eq_mask[of 15 n] by (simp add: take_bit_eq_mod mask_eq_exp_minus_1)

lemma take_bit_and_exp:
  fixes x :: int
  shows "take_bit n x AND 2 ^ n = 0"
  by (rule bit_eqI) (auto simp: bit_simps)

lemma or_sign_bit:
  fixes x :: int
  assumes "0 \<le> x" "x < 32768"
  shows "x OR 0x8000 = x + 32768"
proof -
  have x: "take_bit 15 x = x"
    using assms by (simp add: take_bit_int_eq_self)
  have "take_bit 15 x + 2 ^ 15 = take_bit 15 x OR 2 ^ 15"
    by (rule disjunctive_add_eq_or) (rule take_bit_and_exp)
  then show ?thesis
    using x by simp
qed

text \<open>The bytes, once both float operations are known to give finite results.\<close>

lemma encode_float_bytes:
  fixes v :: real
  assumes scaled: "float_result (\<bar>v\<bar> * 10000) = Some scaled"
    and quot: "float_result (real_of_int (py_round scaled) / 10000) = Some quot"
    and nn: "0 \<le> quot"
  defines "ip \<equiv> py_int quot mod 65536"
  defines "fp \<equiv> py_round scaled mod 10000 + (if v < 0 then 32768 else 0)"
  shows "encode_float v =
           Inr [nat (ip mod 256), nat (ip div 256), nat (fp mod 256), nat (fp div 256)]"
proof -
  define r where "r = py_round scaled mod 10000"
  have r: "0 \<le> r" "r < 10000"
    by (simp_all add: r_def)
  have a: "py_int quot AND 0xFFFF = ip"
    by (simp add: and_mask16 ip_def)
  have b0: "r AND 0xFFFF = r"
    using r by (simp add: and_mask16)
  have fp: "fp = r + (if v < 0 then 32768 else 0)"
    by (simp add: fp_def r_def)
  have b: "(if v < 0 then (r AND 0xFFFF) OR 0x8000 else r AND 0xFFFF) = fp"
    using r by (simp add: b0 fp or_sign_bit)
  have ipr: "0 \<le> ip \<and> ip \<le> 65535"
    by (simp add: ip_def)
  have fpr: "0 \<le> fp \<and> fp \<le> 65535"
    using r by (simp add: fp)
  show ?thesis
    unfolding encode_float_def scaled option.case Let_def quot r_def[symmetric] a b
    using ipr fpr by (simp add: to_bytes2_little_def bindE_def)
qed

lemma bit15_nat: "n < 65536 \<Longrightarrow> bit (n::nat) 15 \<longleftrightarrow> 32768 \<le> n"
proof -
  assume n: "n < 65536"
  have "n div 32768 = (if 32768 \<le> n then 1 else 0)"
    using n by (simp add: div_eq_dividend_iff le_div_geq)
  then show ?thesis
    by (simp add: bit_iff_odd)
qed

lemma le16_split:
  assumes "0 \<le> k"
  shows "le16 (nat (k mod 256)) (nat (k div 256)) = nat k"
proof -
  have "int (le16 (nat (k mod 256)) (nat (k div 256))) = k mod 256 + 256 * (k div 256)"
    using assms by (simp add: le16_def pos_imp_zdiv_nonneg_iff)
  also have "\<dots> = k"
    by simp
  finally show ?thesis
    by simp
qed

text \<open>The true division by 10000 of an integer below \<open>2 ^ 50\<close> truncates to the quotient.\<close>

lemma quotient_10000:
  assumes "0 \<le> n" "n < 2 ^ 50"
  shows "\<exists>q. float_result (real_of_int n / 10000) = Some q \<and> 0 \<le> q \<and> py_int q = n div 10000"
proof -
  define x where "x = real_of_int n / 10000"
  define k where "k = n div 10000"
  have x0: "0 \<le> x"
    using assms(1) by (simp add: x_def)
  have "real_of_int n < 2 ^ 50"
    using assms(2) by (metis of_int_less_numeral_power_cancel_iff)
  then have xs: "x < 2 ^ 37"
    by (simp add: x_def)
  have fin: "float_result x = Some (round_float x)"
    using x0 xs by (intro float_result_small) simp
  have "n = 10000 * k + n mod 10000"
    by (simp add: k_def)
  then have "real_of_int n = real_of_int (10000 * k + n mod 10000)"
    by (rule arg_cong)
  then have split: "x = real_of_int k + real_of_int (n mod 10000) / 10000"
    by (simp add: x_def)
  have m: "0 \<le> n mod 10000" "n mod 10000 \<le> 9999"
    by simp_all
  have lo: "real_of_int k \<le> x"
    using m(1) by (simp add: split)
  have hi: "x \<le> real_of_int k + 9999 / 10000"
    using m(2) by (simp add: split)
  have abs53: "\<bar>x\<bar> < 2 ^ 53"
    using x0 xs by simp
  have ge: "real_of_int k \<le> round_float x"
    using lo abs53 by (rule round_float_ge_int)
  have "\<bar>x\<bar> < 2 powi 37"
    using x0 xs by simp
  then have "ulp x \<le> 2 powi (37 - 53)"
    by (intro ulp_le) simp_all
  then have u: "ulp x \<le> 1 / 2 ^ 16"
    by (simp add: power_int_minus_divide)
  have "round_float x \<le> x + ulp x / 2"
    using round_float_near[of x] by linarith
  then have lt: "round_float x < real_of_int k + 1"
    using hi u by simp
  have k0: "0 \<le> k"
    using assms(1) by (simp add: k_def pos_imp_zdiv_nonneg_iff)
  have q0: "0 \<le> round_float x"
    using x0 by (rule round_float_nonneg)
  have "\<lfloor>round_float x\<rfloor> = k"
    using ge lt by (simp add: floor_eq_iff)
  then have "py_int (round_float x) = k"
    using q0 by (simp add: py_int_def)
  then show ?thesis
    using fin q0 unfolding x_def k_def by blast
qed

text \<open>When the scaled magnitude is itself a whole number below \<open>2 ^ 50\<close>.\<close>

lemma encode_float_whole:
  fixes v :: real
  assumes "\<bar>v\<bar> * 10000 = real_of_int n" "n < 2 ^ 50"
  defines "ip \<equiv> (n div 10000) mod 65536"
  defines "fp \<equiv> n mod 10000 + (if v < 0 then 32768 else 0)"
  shows "encode_float v =
           Inr [nat (ip mod 256), nat (ip div 256), nat (fp mod 256), nat (fp div 256)]"
proof -
  have n0: "0 \<le> n"
  proof -
    have "0 \<le> real_of_int n"
      using assms(1)[symmetric] by simp
    then show ?thesis by simp
  qed
  have "real_of_int n < 2 ^ 50"
    using assms(2) by (metis of_int_less_numeral_power_cancel_iff)
  then have small: "\<bar>real_of_int n\<bar> < 2 ^ 53"
    using n0 by simp
  then have scaled: "float_result (\<bar>v\<bar> * 10000) = Some (real_of_int n)"
    by (simp add: assms(1) float_result_small round_float_of_int)
  obtain q where q: "float_result (real_of_int n / 10000) = Some q" "0 \<le> q"
      "py_int q = n div 10000"
    using quotient_10000[OF n0 assms(2)] by blast
  show ?thesis
    using encode_float_bytes[OF scaled, of q] q
    by (simp add: py_round_of_int ip_def fp_def)
qed

text \<open>Scaling a display value: the rounded product is within 1 of the exact one.\<close>

lemma scaled_in_range:
  fixes x :: real
  assumes "0 \<le> x" "x \<le> 99999999"
  shows "\<exists>p. float_result x = Some p \<and> 0 \<le> py_round p \<and> py_round p \<le> 99999999 \<and>
           \<bar>real_of_int (py_round p) - x\<bar> \<le> 1"
proof -
  have small: "\<bar>x\<bar> < 2 ^ 53"
    using assms by simp
  have fin: "float_result x = Some (round_float x)"
    using small by (rule float_result_small)
  have p0: "0 \<le> round_float x"
    using assms(1) by (rule round_float_nonneg)
  have "x \<le> real_of_int 99999999"
    using assms(2) by simp
  then have p1: "round_float x \<le> real_of_int 99999999"
    using small by (rule round_float_le_int)
  have "\<bar>x\<bar> < 2 powi 27"
    using assms by simp
  then have "ulp x \<le> 2 powi (27 - 53)"
    by (intro ulp_le) simp_all
  also have "\<dots> \<le> 1"
    by (simp add: power_int_minus_divide)
  finally have "\<bar>round_float x - x\<bar> \<le> 1 / 2"
    using round_float_near[of x] by simp
  moreover have "\<bar>real_of_int (py_round (round_float x)) - round_float x\<bar> \<le> 1 / 2"
    by (rule py_round_near)
  ultimately have near: "\<bar>real_of_int (py_round (round_float x)) - x\<bar> \<le> 1"
    by linarith
  have "0 \<le> py_round (round_float x)"
    using p0 by (rule py_round_nonneg)
  moreover have "py_round (round_float x) \<le> 99999999"
    using p1 by (rule py_round_le)
  ultimately show ?thesis
    using fin near by blast
qed

text \<open>A product below the overflow threshold, and the division after it, are finite.\<close>

lemma finite_product:
  fixes x :: real
  assumes "0 \<le> x" "x < 2 ^ 1024 - 2 ^ 970"
  shows "\<exists>p quot. float_result x = Some p \<and>
           float_result (real_of_int (py_round p) / 10000) = Some quot \<and> 0 \<le> quot"
proof -
  have fin: "float_result x = Some (round_float x)"
    using assms by (simp only: float_result_def) auto
  have p0: "0 \<le> round_float x"
    using assms(1) by (rule round_float_nonneg)
  have "\<bar>x\<bar> < 2 powi 1024"
    using assms threshold_facts(1) by simp
  then have "ulp x / 2 \<le> 2 powi (1024 - 53) / 2"
    by (intro divide_right_mono ulp_le) simp_all
  then have "ulp x / 2 \<le> 2 ^ 970"
    by (simp only: threshold_facts(3))
  then have "round_float x < 2 ^ 1024"
    using round_float_near[of x] assms(2) by linarith
  moreover have "real_of_int (py_round (round_float x)) \<le> round_float x + 1 / 2"
    using py_round_near[of "round_float x"] by linarith
  ultimately have "real_of_int (py_round (round_float x)) / 10000 < (2 ^ 1024 + 1 / 2) / 10000"
    by (intro divide_strict_right_mono) simp_all
  then have lt: "real_of_int (py_round (round_float x)) / 10000 < 2 ^ 1024 - 2 ^ 970"
    using threshold_facts(2) by linarith
  have i0: "0 \<le> py_round (round_float x)"
    using p0 by (rule py_round_nonneg)
  then have y0: "0 \<le> real_of_int (py_round (round_float x)) / 10000"
    by simp
  have fin2: "float_result (real_of_int (py_round (round_float x)) / 10000) =
      Some (round_float (real_of_int (py_round (round_float x)) / 10000))"
    using y0 lt by (simp only: float_result_def) auto
  have "0 \<le> round_float (real_of_int (py_round (round_float x)) / 10000)"
    using y0 by (rule round_float_nonneg)
  then show ?thesis
    using fin fin2 by blast
qed


section \<open>Codec: properties\<close>

text \<open>
  C3. For every real \<open>v\<close> with \<open>\<bar>v\<bar> \<le> 9999.9999\<close>, \<open>encode_float v\<close> returns four
  bytes; decoding them (little-endian integer field, little-endian fractional field with
  the high bit masked off, integer part plus fraction over 10000, negated when the high
  bit is set) gives a value within 0.0001 of \<open>v\<close>, and the high bit of the fractional
  field is set exactly when \<open>v < 0\<close>. The rounding of the float product is part of the
  bound.
\<close>

theorem encode_float_roundtrip:
  fixes v :: real
  assumes bound: "\<bar>v\<bar> \<le> 9999.9999"
  shows "\<exists>i0 i1 f0 f1 d.
           encode_float v = Inr [i0, i1, f0, f1] \<and>
           decode_float_spec [i0, i1, f0, f1] = Some d \<and>
           \<bar>d - v\<bar> \<le> 0.0001 \<and>
           (bit (le16 f0 f1) 15 \<longleftrightarrow> v < 0)"
proof -
  have "0 \<le> \<bar>v\<bar> * 10000" "\<bar>v\<bar> * 10000 \<le> 99999999"
    using bound by simp_all
  then obtain p where p: "float_result (\<bar>v\<bar> * 10000) = Some p"
      and nn: "0 \<le> py_round p" and up: "py_round p \<le> 99999999"
      and near: "\<bar>real_of_int (py_round p) - \<bar>v\<bar> * 10000\<bar> \<le> 1"
    using scaled_in_range by blast
  define int_v where "int_v = py_round p"
  define q where "q = int_v div 10000"
  define r where "r = int_v mod 10000"
  define fp where "fp = r + (if v < 0 then 32768 else 0)"
  have "int_v < 2 ^ 50"
    using up by (simp add: int_v_def)
  then obtain quot where quot: "float_result (real_of_int int_v / 10000) = Some quot"
      "0 \<le> quot" "py_int quot = q"
    using quotient_10000[of int_v] nn unfolding int_v_def q_def by blast
  have r: "0 \<le> r" "r < 10000"
    by (simp_all add: r_def)
  have q: "0 \<le> q" "q < 65536"
    using nn up unfolding q_def int_v_def by arith+
  have fpr: "0 \<le> fp" "fp < 65536"
    using r by (simp_all add: fp_def)
  have enc: "encode_float v =
      Inr [nat (q mod 256), nat (q div 256), nat (fp mod 256), nat (fp div 256)]"
    using encode_float_bytes[OF p, of quot] quot q
    by (simp add: int_v_def r_def fp_def)
  have fld_i: "le16 (nat (q mod 256)) (nat (q div 256)) = nat q"
    using q(1) by (rule le16_split)
  have fld_f: "le16 (nat (fp mod 256)) (nat (fp div 256)) = nat fp"
    using fpr(1) by (rule le16_split)
  have sign: "bit (nat fp) 15 \<longleftrightarrow> v < 0"
  proof -
    have "nat fp < 65536"
      using fpr by simp
    then have "bit (nat fp) 15 \<longleftrightarrow> 32768 \<le> nat fp"
      by (rule bit15_nat)
    also have "\<dots> \<longleftrightarrow> v < 0"
      using r unfolding fp_def by (cases "v < 0") simp_all
    finally show ?thesis .
  qed
  have low: "nat fp AND 0x7FFF = nat r"
    using r by (simp add: and_mask15_nat fp_def nat_add_distrib)
  have split: "real_of_int int_v = 10000 * real_of_int q + real_of_int r"
  proof -
    have "int_v = 10000 * q + r"
      by (simp add: q_def r_def)
    then have "real_of_int int_v = real_of_int (10000 * q + r)"
      by (rule arg_cong)
    then show ?thesis
      by simp
  qed
  define mag where "mag = real (nat q) + real (nat r) / 10000"
  have mag: "mag = real_of_int int_v / 10000"
    using q(1) r(1) by (simp add: mag_def split)
  have dec: "decode_float_spec
      [nat (q mod 256), nat (q div 256), nat (fp mod 256), nat (fp div 256)]
      = Some (if v < 0 then - mag else mag)"
    by (simp add: fld_i fld_f sign low mag_def Let_def)
  have close: "\<bar>(if v < 0 then - mag else mag) - v\<bar> \<le> 0.0001"
    using near by (simp add: mag int_v_def abs_if field_simps split: if_splits)
  show ?thesis
    using enc dec close sign fld_f by auto
qed

theorem encode_float_roundtrip_witness:
  "\<bar>- 3 / 2 :: real\<bar> \<le> 9999.9999 \<and>
   (\<exists>i0 i1 f0 f1 d.
      encode_float (- 3 / 2) = Inr [i0, i1, f0, f1] \<and>
      decode_float_spec [i0, i1, f0, f1] = Some d \<and>
      \<bar>d - (- 3 / 2)\<bar> \<le> 0.0001 \<and>
      (bit (le16 f0 f1) 15 \<longleftrightarrow> (- 3 / 2 :: real) < 0))"
  using encode_float_roundtrip [of "- 3 / 2"] by simp

text \<open>
  C10, as amended. For every \<open>v\<close> whose scaled magnitude \<open>\<bar>v\<bar> * 10000\<close> is below the
  overflow threshold \<open>2 ^ 1024 - 2 ^ 970\<close> of the float product, \<open>encode_float v\<close>
  returns exactly four bytes, each below 256, and raises nothing. Both fields are reduced
  modulo \<open>2 ^ 16\<close>: the integer field is the truncated float quotient of the rounded
  product by 10000, modulo 65536, so a magnitude beyond the display range wraps around;
  the fractional field is the remainder, with \<open>0x8000\<close> added for a negative \<open>v\<close>.
\<close>

theorem encode_float_four_bytes:
  fixes v :: real
  assumes "\<bar>v\<bar> * 10000 < 2 ^ 1024 - 2 ^ 970"
  shows "\<exists>b0 b1 b2 b3 scaled quot.
           float_result (\<bar>v\<bar> * 10000) = Some scaled \<and>
           float_result (real_of_int (py_round scaled) / 10000) = Some quot \<and>
           encode_float v = Inr [b0, b1, b2, b3] \<and>
           b0 < 256 \<and> b1 < 256 \<and> b2 < 256 \<and> b3 < 256 \<and>
           int (le16 b0 b1) = py_int quot mod 65536 \<and>
           int (le16 b2 b3) =
             (py_round scaled mod 10000) mod 65536 + (if v < 0 then 32768 else 0)"
proof -
  obtain scaled quot where s: "float_result (\<bar>v\<bar> * 10000) = Some scaled"
      and q: "float_result (real_of_int (py_round scaled) / 10000) = Some quot"
      and q0: "0 \<le> quot"
    using finite_product[of "\<bar>v\<bar> * 10000"] assms by auto
  define ip where "ip = py_int quot mod 65536"
  define r where "r = py_round scaled mod 10000"
  define fp where "fp = r + (if v < 0 then 32768 else 0)"
  have r: "0 \<le> r" "r < 10000"
    by (simp_all add: r_def)
  have ip: "0 \<le> ip" "ip < 65536"
    by (simp_all add: ip_def)
  have fp: "0 \<le> fp" "fp < 65536"
    using r by (simp_all add: fp_def)
  have enc: "encode_float v =
      Inr [nat (ip mod 256), nat (ip div 256), nat (fp mod 256), nat (fp div 256)]"
    using encode_float_bytes[OF s q q0] by (simp add: ip_def r_def fp_def)
  have b: "nat (ip mod 256) < 256" "nat (ip div 256) < 256"
          "nat (fp mod 256) < 256" "nat (fp div 256) < 256"
    using ip fp by (simp_all add: nat_less_iff)
  have f1: "int (le16 (nat (ip mod 256)) (nat (ip div 256))) = ip"
    using ip(1) by (simp add: le16_split)
  have f2: "int (le16 (nat (fp mod 256)) (nat (fp div 256))) = fp"
    using fp(1) by (simp add: le16_split)
  have f2': "int (le16 (nat (fp mod 256)) (nat (fp div 256))) =
      r mod 65536 + (if v < 0 then 32768 else 0)"
  proof -
    have "fp = r mod 65536 + (if v < 0 then 32768 else 0)"
      using r by (simp add: fp_def)
    with f2 show ?thesis
      by (rule trans)
  qed
  have "\<exists>b0 b1 b2 b3.
          encode_float v = Inr [b0, b1, b2, b3] \<and>
          b0 < 256 \<and> b1 < 256 \<and> b2 < 256 \<and> b3 < 256 \<and>
          int (le16 b0 b1) = ip \<and>
          int (le16 b2 b3) = r mod 65536 + (if v < 0 then 32768 else 0)"
    using enc b f1 f2' by blast
  then show ?thesis
    using s q unfolding ip_def r_def by blast
qed

theorem encode_float_four_bytes_witness:
  "\<bar>70000.5 :: real\<bar> * 10000 < 2 ^ 1024 - 2 ^ 970 \<and>
   (\<exists>b0 b1 b2 b3. encode_float 70000.5 = Inr [b0, b1, b2, b3] \<and>
      b0 < 256 \<and> b1 < 256 \<and> b2 < 256 \<and> b3 < 256)"
proof -
  have h: "\<bar>70000.5 :: real\<bar> * 10000 < 2 ^ 1024 - 2 ^ 970"
    by simp
  show ?thesis
    using h encode_float_four_bytes [OF h] by blast
qed

text \<open>
  C10 as stated fails: the float \<open>2 ^ 1020\<close> is an input whose product with 10000 is
  infinite, and \<^verbatim>\<open>round\<close> of it raises OverflowError instead of giving four bytes.
\<close>

theorem encode_float_overflow:
  "is_float (2 ^ 1020) \<and>
   encode_float (2 ^ 1020) = Inl (OverflowError ''cannot convert float infinity to integer'')"
  using float_2_1020 by (simp add: encode_float_def float_result_def)

lemma encode_float_0: "encode_float 0 = Inr [0, 0, 0, 0]"
  using encode_float_whole[of 0 0] by simp

text \<open>An integer part of 70000 is sent as \<open>70000 mod 65536 = 0x1170\<close>.\<close>

lemma encode_float_wraps: "encode_float 70000.5 = Inr [0x70, 0x11, 0x88, 0x13]"
  using encode_float_whole[of "70000.5" 700005000] by simp

text \<open>
  Three floats whose product with 10000 is rounded. For the float nearest to 0.00005 the
  product is exactly one half, which \<^verbatim>\<open>round\<close> takes to 0; for the float nearest to
  0.00155 it is 15.5, taken to 16; for the float nearest to 5277357228497.662 it lies
  beyond \<open>2 ^ 53\<close> and is a multiple of 8.
\<close>

lemmas float_eval =
  round_float_def ulp_def float_exponent_def compute_bitlen py_round_def py_int_def Let_def

lemma float_5e_05: "is_float (7378697629483821 / 2 ^ 67)"
proof -
  have "\<bar>7378697629483821 / 2 ^ 67 :: real\<bar> < 2 ^ 53"
    by simp
  moreover have "round_float (7378697629483821 / 2 ^ 67) = 7378697629483821 / 2 ^ 67"
    by (simp add: float_eval)
  ultimately show ?thesis
    unfolding is_float_def by (simp only: float_result_small)
qed

lemma encode_float_5e_05: "encode_float (7378697629483821 / 2 ^ 67) = Inr [0, 0, 0, 0]"
proof -
  have small: "\<bar>7378697629483821 / 2 ^ 67 * 10000 :: real\<bar> < 2 ^ 53"
    by simp
  have "round_float (7378697629483821 / 2 ^ 67 * 10000) = 1 / 2"
    by (simp add: float_eval)
  then have a: "float_result (\<bar>7378697629483821 / 2 ^ 67 :: real\<bar> * 10000) = Some (1 / 2)"
    using float_result_small[OF small] by simp
  have b: "py_round (1 / 2) = 0"
    by (simp add: py_round_def)
  have c: "float_result (real_of_int 0 / 10000) = Some 0"
    using float_result_small[of 0] by (simp add: round_float_def)
  show ?thesis
    using encode_float_bytes[OF a, of 0] b c by (simp add: py_int_def)
qed

lemma encode_float_0_00155: "encode_float (7148113328562451 / 2 ^ 62) = Inr [0, 0, 16, 0]"
proof -
  have small: "\<bar>7148113328562451 / 2 ^ 62 * 10000 :: real\<bar> < 2 ^ 53"
    by simp
  have "round_float (7148113328562451 / 2 ^ 62 * 10000) = 31 / 2"
    by (simp add: float_eval)
  then have a: "float_result (\<bar>7148113328562451 / 2 ^ 62 :: real\<bar> * 10000) = Some (31 / 2)"
    using float_result_small[OF small] by simp
  have b: "py_round (31 / 2) = 16"
    by (simp add: py_round_def)
  obtain q where q: "float_result (real_of_int 16 / 10000) = Some q" "0 \<le> q"
      "py_int q = 16 div 10000"
    using quotient_10000[of 16] by auto
  show ?thesis
    using encode_float_bytes[OF a, of q] b q by simp
qed

lemma encode_float_large:
  "encode_float (2702006900990803 / 512) = Inr [0xD1, 0xC1, 0xE0, 0x19]"
proof -
  have "round_float (2702006900990803 / 512 * 10000) = 52773572284976624"
    by (simp add: float_eval)
  then have a: "float_result (\<bar>2702006900990803 / 512 :: real\<bar> * 10000) =
      Some (real_of_int 52773572284976624)"
    by (simp add: float_result_def)
  have "round_float (52773572284976624 / 10000) = 2702006900990803 / 512"
    by (simp add: float_eval)
  moreover have r: "py_round 52773572284976624 = 52773572284976624"
    by (simp add: py_round_def)
  ultimately have c:
    "float_result (real_of_int (py_round (real_of_int 52773572284976624)) / 10000) =
      Some (2702006900990803 / 512)"
    by (simp add: float_result_def)
  have d: "py_int (2702006900990803 / 512) = 5277357228497"
    by (simp add: py_int_def)
  show ?thesis
    using encode_float_bytes[OF a c] d r by simp
qed

text \<open>
  C4. \<open>encode_float\<close> is claimed to saturate a magnitude above 9999.9999 to that
  boundary. It never calls \<open>limit_num\<close> (only \<open>encode_s16\<close> does): 20000.5 is encoded
  with integer field 20000, not with the bytes of 9999.9999.
\<close>

theorem encode_float_no_saturation:
  "encode_float 20000.5 = Inr [0x20, 0x4E, 0x88, 0x13] \<and>
   encode_float 9999.9999 = Inr [0x0F, 0x27, 0x0F, 0x27] \<and>
   encode_float 20000.5 \<noteq> encode_float 9999.9999"
  using encode_float_whole[of "20000.5" 200005000] encode_float_whole[of "9999.9999" 99999999]
  by simp

text \<open>
  C5. \<open>encode_s16\<close> on an integer axis is claimed to clamp to \<open>[0, 65535]\<close> and to
  encode the clamped value as a signed two-byte field without error. The clamp lets 40000
  through unchanged, and the signed encoding of 40000 raises OverflowError.
\<close>

theorem encode_s16_overflow:
  "limit_num (Axis_init ''feed'' True) 40000 = 40000 \<and>
   encode_s16 (Axis_init ''feed'' True) 40000 = Inl (OverflowError ''int too big to convert'')"
  by (simp add: encode_s16_def limit_num_def Axis_init_def py_int_def to_bytes2_little_def Let_def)

text \<open>
  On an integer axis the clamp does hold, and the signed encoding succeeds exactly for the
  inputs below 32768.
\<close>

lemma limit_num_integer_range:
  assumes "integerAxis self"
  shows "0 \<le> limit_num self v \<and> limit_num self v \<le> 65535"
  using assms by (simp add: limit_num_def Let_def)

lemma encode_s16_integer_iff:
  assumes "integerAxis self"
  shows "(\<exists>bs. encode_s16 self v = Inr bs) \<longleftrightarrow> v < 32768"
  using assms
  by (simp add: encode_s16_def limit_num_def Let_def to_bytes2_little_def py_int_def)


section \<open>Packets\<close>

lemma pad_data_eq: "pad_data data = data @ replicate (42 - length data) 0"
proof (induction data rule: pad_data.induct)
  case (1 data)
  show ?case
  proof (cases "length data < 42")
    case True
    then have "42 - length data = Suc (42 - length (data @ [0]))"
      by simp
    with True 1 show ?thesis
      by (subst pad_data.simps) (simp add: replicate_app_Cons_same)
  next
    case False
    then show ?thesis
      by (subst pad_data.simps) simp
  qed
qed

lemma for_loop_append:
  "for_loop (xs @ ys) body s = bindE (for_loop xs body s) (for_loop ys body)"
  by (induction xs arbitrary: s) (auto simp: bindE_def split: sum.splits)

lemma upt_8: "[0..<8] = [0, 1, 2, 3, 4, 5, 6, 7]"
  by (simp add: upt_rec)

lemma take_7_drop:
  assumes "idx + 7 \<le> length data"
  shows "take 7 (drop idx data) = map (\<lambda>i. data ! (idx + i)) [0..<7]"
  using assms by (intro nth_equalityI) simp_all

lemma one_packet:
  assumes "idx + 7 \<le> length data"
  shows "for_loop [0..<8] (packet_byte data) (packets, idx) =
           Inr (packets @ [0x6 # take 7 (drop idx data)], idx + 7)"
  using assms by (simp add: take_7_drop packet_byte_def upt_rec)

lemma packets_upto:
  assumes "7 * n \<le> length data"
  shows "for_loop [0..<n] (\<lambda>packet. for_loop [0..<8] (packet_byte data)) ([], 0) =
           Inr (map (\<lambda>k. 0x6 # take 7 (drop (7 * k) data)) [0..<n], 7 * n)"
  using assms
proof (induction n)
  case 0
  show ?case by simp
next
  case (Suc n)
  then have "7 * n + 7 \<le> length data"
    by simp
  then show ?case
    using Suc by (simp add: for_loop_append bindE_def one_packet)
qed

lemma concat_chunks:
  "concat (map (\<lambda>k. take m (drop (m * k) xs)) [0..<n]) = take (m * n) xs"
proof (induction n)
  case 0
  show ?case by simp
next
  case (Suc n)
  have "take (m * Suc n) xs = take (m * n + m) xs"
    by (simp add: add.commute)
  also have "\<dots> = take (m * n) xs @ take m (drop (m * n) xs)"
    by (rule take_add)
  finally show ?case
    using Suc by simp
qed

lemma send_packets_ok:
  assumes "\<forall>p \<in> set ps. \<forall>b \<in> set p. b < 256"
  shows "send_packets ps self = (Inr (), self\<lparr>out := out self @ map ctrl_transfer ps\<rparr>)"
  using assms
proof (induction ps arbitrary: self)
  case Nil
  show ?case by simp
next
  case (Cons p ps)
  then show ?case
    by (simp add: list_ex_iff not_le)
qed

text \<open>
  C6. For every 42-byte input, \<open>sendData\<close> hands exactly six packets to the device, each
  of eight bytes and each starting with \<open>0x06\<close>, and bytes 1 to 7 of the packets,
  concatenated in order, are the input again.
\<close>

theorem sendData_packets:
  assumes len: "length data = 42"
    and bytes: "list_all (\<lambda>b. b < 256) data"
  shows "\<exists>packets.
           sendData data self =
             (Inr (), self\<lparr>out := out self @ map ctrl_transfer packets\<rparr>) \<and>
           length packets = 6 \<and>
           list_all (\<lambda>p. length p = 8 \<and> p ! 0 = 0x06) packets \<and>
           concat (map (\<lambda>p. take 7 (drop 1 p)) packets) = data"
proof -
  define packets where "packets = map (\<lambda>k. 0x6 # take 7 (drop (7 * k) data)) [0..<6]"
  have pad: "pad_data data = data"
    using len by (simp add: pad_data_eq)
  have mk: "make_packets data = Inr (packets, 42)"
    unfolding make_packets_def packets_def
    using packets_upto[of 6 data] len by simp
  have small: "\<forall>p \<in> set packets. \<forall>b \<in> set p. b < 256"
    using bytes by (auto simp: packets_def list_all_iff dest!: in_set_takeD in_set_dropD)
  have sent: "sendData data self =
      (Inr (), self\<lparr>out := out self @ map ctrl_transfer packets\<rparr>)"
    using small by (simp add: sendData_def pad mk send_packets_ok)
  have n: "length packets = 6"
    by (simp add: packets_def)
  have shape: "list_all (\<lambda>p. length p = 8 \<and> p ! 0 = 0x06) packets"
    using len by (auto simp: packets_def list_all_iff)
  have "concat (map (\<lambda>p. take 7 (drop 1 p)) packets) =
      concat (map (\<lambda>k. take 7 (drop (7 * k) data)) [0..<6])"
    by (simp add: packets_def comp_def)
  also have "\<dots> = take (7 * 6) data"
    by (rule concat_chunks)
  also have "\<dots> = data"
    using len by simp
  finally have rebuilt: "concat (map (\<lambda>p. take 7 (drop 1 p)) packets) = data" .
  show ?thesis
    using sent n shape rebuilt by blast
qed

theorem sendData_packets_witness:
  "length [0..<42] = 42 \<and> list_all (\<lambda>b. b < 256) [0..<42] \<and>
   (\<exists>packets.
      sendData [0..<42] hb04_reset =
        (Inr (), hb04_reset\<lparr>out := out hb04_reset @ map ctrl_transfer packets\<rparr>) \<and>
      length packets = 6 \<and>
      concat (map (\<lambda>p. take 7 (drop 1 p)) packets) = [0..<42])"
proof -
  have h: "length [0..<42] = 42" "list_all (\<lambda>b. b < 256) [0..<42]"
    by (simp_all add: list_all_iff)
  show ?thesis
    using h sendData_packets [OF h, of hb04_reset] by blast
qed


section \<open>Inbound reports: what a failed decode does\<close>

lemmas table_defs =
  code2Button_def code2Axis_def inverse_table_def dict_of_def getitem_def
  button_names_def axis_select_switch_def

lemma newUSBEvent_try_not_invoked:
  assumes "code2Button (data ! 1) = None \<or> code2Button (data ! 2) = None"
  shows "invoked (snd (newUSBEvent_try data s)) = invoked s"
  using assms
  by (auto simp: newUSBEvent_try_def make_event_def getitem_def bindE_def
      split: option.splits sum.splits prod.splits)

text \<open>
  C1, as amended. For every inbound report whose length is not 6 or whose button1,
  button2 or axis-switch byte has no table entry, the handler is not invoked. When the
  length is 6 and the axis-switch byte is mapped (so a button byte is the unmapped one),
  \<open>newUSBEvent\<close> returns normally and the receive loop goes on with the next read. When
  the length is not 6 or the axis-switch byte is unmapped, \<open>newUSBEvent\<close> raises
  (AssertionError, or KeyError for the axis-switch byte) with the state unchanged, and the receive loop takes the
  fatal path.
\<close>

theorem newUSBEvent_decode_failure:
  assumes "decode_fails_spec data"
  shows "invoked (snd (newUSBEvent data s)) = invoked s \<and>
         (length data = 6 \<and> code2Axis (data ! 3) \<noteq> None \<longrightarrow>
            fst (newUSBEvent data s) = Inr () \<and>
            (running (hb s) \<longrightarrow>
               receiveUSBEvents (Data data # rs) s =
                 receiveUSBEvents rs (snd (newUSBEvent data s)))) \<and>
         (length data \<noteq> 6 \<or> code2Axis (data ! 3) = None \<longrightarrow>
            (fst (newUSBEvent data s) = Inl AssertionError \<or>
             fst (newUSBEvent data s) = Inl (KeyError (data ! 3))) \<and>
            snd (newUSBEvent data s) = s \<and>
            (running (hb s) \<longrightarrow>
               receiveUSBEvents (Data data # rs) s =
                 (Inl (SystemExit 1),
                  s\<lparr>hb := snd (fatal ''### Programmer error!!###'' (hb s))\<rparr>)))"
proof (intro conjI impI)
  show "invoked (snd (newUSBEvent data s)) = invoked s"
  proof (cases "length data = 6 \<and> code2Axis (data ! 3) \<noteq> None")
    case True
    then obtain sw where sw: "code2Axis (data ! 3) = Some sw"
      by auto
    from True assms have "code2Button (data ! 1) = None \<or> code2Button (data ! 2) = None"
      by (auto simp: decode_fails_spec_def)
    then have "invoked (snd (newUSBEvent_try data (s\<lparr>hb := (hb s)\<lparr>axis_switch := sw\<rparr>\<rparr>))) =
        invoked (s\<lparr>hb := (hb s)\<lparr>axis_switch := sw\<rparr>\<rparr>)"
      by (rule newUSBEvent_try_not_invoked)
    then show ?thesis
      using True sw by (auto simp: newUSBEvent_def getitem_def split: prod.splits)
  next
    case False
    then show ?thesis
      by (auto simp: newUSBEvent_def getitem_def split: option.splits)
  qed
next
  assume ok: "length data = 6 \<and> code2Axis (data ! 3) \<noteq> None"
  then show r: "fst (newUSBEvent data s) = Inr ()"
    by (auto simp: newUSBEvent_def getitem_def split: prod.splits)
  assume "running (hb s)"
  then show "receiveUSBEvents (Data data # rs) s =
      receiveUSBEvents rs (snd (newUSBEvent data s))"
    using r by (cases "newUSBEvent data s") simp
next
  assume bad: "length data \<noteq> 6 \<or> code2Axis (data ! 3) = None"
  then show e: "fst (newUSBEvent data s) = Inl AssertionError \<or>
      fst (newUSBEvent data s) = Inl (KeyError (data ! 3))"
    by (auto simp: newUSBEvent_def getitem_def)
  from bad show u: "snd (newUSBEvent data s) = s"
    by (auto simp: newUSBEvent_def getitem_def)
  assume "running (hb s)"
  then show "receiveUSBEvents (Data data # rs) s =
      (Inl (SystemExit 1), s\<lparr>hb := snd (fatal ''### Programmer error!!###'' (hb s))\<rparr>)"
    using e u by (cases "newUSBEvent data s") (auto simp: fatal_def Let_def)
qed

lemma button_unmapped: "code2Button 0x99 = None"
  by (simp add: table_defs)

lemma axis_unmapped: "code2Axis 0x99 = None"
  by (simp add: table_defs)

lemma axis_x: "code2Axis 0x11 = Some ''x''"
  by (simp add: table_defs)

theorem newUSBEvent_decode_failure_witness:
  "decode_fails_spec [4, 0x99, 0, 0x11, 0, 0] \<and>
   fst (newUSBEvent [4, 0x99, 0, 0x11, 0, 0] (listening ok_handler)) = Inr () \<and>
   invoked (snd (newUSBEvent [4, 0x99, 0, 0x11, 0, 0] (listening ok_handler))) = [] \<and>
   decode_fails_spec [4, 0, 0, 0x99, 0, 0] \<and>
   fst (receiveUSBEvents [Data [4, 0, 0, 0x99, 0, 0]] (listening ok_handler)) =
     Inl (SystemExit 1)"
proof -
  have a: "decode_fails_spec [4, 0x99, 0, 0x11, 0, 0]"
    by (simp add: decode_fails_spec_def button_unmapped)
  have b: "decode_fails_spec [4, 0, 0, 0x99, 0, 0]"
    by (simp add: decode_fails_spec_def axis_unmapped)
  show ?thesis
    using a b
      newUSBEvent_decode_failure [OF a, of "listening ok_handler" "[]"]
      newUSBEvent_decode_failure [OF b, of "listening ok_handler" "[]"]
    by (simp add: axis_x axis_unmapped listening_def)
qed

text \<open>
  C1 as stated fails: a report with the unmapped axis-switch byte \<open>0x99\<close> is a failed
  decode, yet the KeyError leaves \<open>newUSBEvent\<close> and the receive loop ends in \<open>fatal\<close>.
\<close>

theorem decode_failure_reaches_fatal:
  "decode_fails_spec [4, 0, 0, 0x99, 0, 0] \<and>
   fst (newUSBEvent [4, 0, 0, 0x99, 0, 0] (listening ok_handler)) = Inl (KeyError 0x99) \<and>
   fst (receiveUSBEvents [Data [4, 0, 0, 0x99, 0, 0]] (listening ok_handler)) =
     Inl (SystemExit 1) \<and>
   out (hb (snd (receiveUSBEvents [Data [4, 0, 0, 0x99, 0, 0]] (listening ok_handler)))) =
     [Print ''### FATAL: ### Programmer error!!###'', Traceback] \<and>
   \<not> running (hb (snd (receiveUSBEvents [Data [4, 0, 0, 0x99, 0, 0]] (listening ok_handler))))"
  by (simp add: decode_fails_spec_def axis_unmapped newUSBEvent_def getitem_def listening_def
      fatal_def print_def disconnect_def hb04_reset_def Let_def)


section \<open>Inbound reports: a handler that raises\<close>

lemma newUSBEvent_handler_raises:
  assumes len: "length data = 6"
    and sw: "code2Axis (data ! 3) = Some sw"
    and ev: "make_event data ((hb s)\<lparr>axis_switch := sw\<rparr>) = Inr ev"
    and reg: "machine_event_handler s = Some h"
    and raises: "h ev ((hb s)\<lparr>axis_switch := sw\<rparr>) = (Some e, self')"
  shows "newUSBEvent data s = (Inr (), s\<lparr>hb := self', invoked := invoked s @ [ev]\<rparr>)"
proof -
  have "newUSBEvent_try data (s\<lparr>hb := (hb s)\<lparr>axis_switch := sw\<rparr>\<rparr>) =
      (Inl e, s\<lparr>hb := self', invoked := invoked s @ [ev]\<rparr>)"
    using ev reg raises by (simp add: newUSBEvent_try_def)
  then show ?thesis
    using len sw by (simp add: newUSBEvent_def getitem_def)
qed

text \<open>
  C2, as amended. For every registered handler and every report that decodes (length 6,
  all three bytes mapped), if the handler raises an exception of class \<^verbatim>\<open>Exception\<close>
  (anything but \<^verbatim>\<open>SystemExit\<close>) when invoked, \<open>newUSBEvent\<close> catches it and returns
  normally: the exception does not reach the receive loop, and the driver adds nothing of
  its own, so the state after the call is the state the handler left, with the event
  recorded as delivered. The receive loop then goes on to its next turn with that state.
\<close>

theorem handler_exception_swallowed:
  assumes len: "length data = 6"
    and sw: "code2Axis (data ! 3) = Some sw"
    and ev: "make_event data ((hb s)\<lparr>axis_switch := sw\<rparr>) = Inr ev"
    and reg: "machine_event_handler s = Some h"
    and raises: "h ev ((hb s)\<lparr>axis_switch := sw\<rparr>) = (Some e, self')"
    and exc: "is_Exception e"
  shows "newUSBEvent data s = (Inr (), s\<lparr>hb := self', invoked := invoked s @ [ev]\<rparr>) \<and>
         (running (hb s) \<longrightarrow>
            receiveUSBEvents (Data data # rs) s =
              receiveUSBEvents rs (s\<lparr>hb := self', invoked := invoked s @ [ev]\<rparr>))"
  using newUSBEvent_handler_raises [OF len sw ev reg raises] by simp

lemma axis_z: "code2Axis 0x13 = Some ''z''"
  by (simp add: table_defs)

lemma event_start_z:
  "make_event [4, 2, 0, 0x13, 0x81, 2] (self\<lparr>axis_switch := ''z''\<rparr>) =
     Inr \<lparr>button = ''start'', button2 = [], axis = ''z'', increment = - 127\<rparr>"
  by (simp add: make_event_def bindE_def sign_extend_def table_defs)

theorem handler_exception_swallowed_witness:
  "is_Exception (HandlerError ''boom'') \<and>
   newUSBEvent [4, 2, 0, 0x13, 0x81, 2] (listening raising_handler) =
     (Inr (),
      (listening raising_handler)
        \<lparr>hb := (hb (listening raising_handler))\<lparr>axis_switch := ''z''\<rparr>,
         invoked := [\<lparr>button = ''start'', button2 = [], axis = ''z'', increment = - 127\<rparr>]\<rparr>)"
  using handler_exception_swallowed [of "[4, 2, 0, 0x13, 0x81, 2]" "''z''"
      "listening raising_handler"
      "\<lparr>button = ''start'', button2 = [], axis = ''z'', increment = - 127\<rparr>"
      raising_handler "HandlerError ''boom''"
      "(hb (listening raising_handler))\<lparr>axis_switch := ''z''\<rparr>" "[]"]
  by (simp add: axis_z event_start_z is_Exception_def)
    (simp add: listening_def raising_handler_def)

lemma raising_session_report:
  "newUSBEvent [4, 2, 0, 0x13, 0x81, 2] (listening raising_handler) =
     (Inr (),
      (listening raising_handler)
        \<lparr>hb := (hb (listening raising_handler))\<lparr>axis_switch := ''z''\<rparr>,
         invoked := invoked (listening raising_handler) @
           [\<lparr>button = ''start'', button2 = [], axis = ''z'', increment = - 127\<rparr>]\<rparr>)"
proof (rule newUSBEvent_handler_raises)
  show "length [4, 2, 0, 0x13, 0x81, 2 :: nat] = 6"
    by simp
  show "code2Axis ([4, 2, 0, 0x13, 0x81, 2] ! 3) = Some ''z''"
    by (simp add: axis_z)
  show "make_event [4, 2, 0, 0x13, 0x81, 2]
      ((hb (listening raising_handler))\<lparr>axis_switch := ''z''\<rparr>) =
      Inr \<lparr>button = ''start'', button2 = [], axis = ''z'', increment = - 127\<rparr>"
    by (rule event_start_z)
  show "machine_event_handler (listening raising_handler) = Some raising_handler"
    by (simp add: listening_def)
  show "raising_handler \<lparr>button = ''start'', button2 = [], axis = ''z'', increment = - 127\<rparr>
      ((hb (listening raising_handler))\<lparr>axis_switch := ''z''\<rparr>) =
      (Some (HandlerError ''boom''), (hb (listening raising_handler))\<lparr>axis_switch := ''z''\<rparr>)"
    by (simp add: raising_handler_def)
qed

text \<open>
  C2 as stated fails: with a handler that raises on every event, a valid report is
  processed, the handler is invoked and raises, and the receive loop returns normally with
  nothing logged and \<open>running\<close> still set.
\<close>

theorem handler_exception_not_fatal:
  "fst (raising_handler \<lparr>button = ''start'', button2 = [], axis = ''z'', increment = - 127\<rparr>
         ((hb (listening raising_handler))\<lparr>axis_switch := ''z''\<rparr>)) =
     Some (HandlerError ''boom'') \<and>
   fst (receiveUSBEvents [Data [4, 2, 0, 0x13, 0x81, 2]] (listening raising_handler)) = Inr () \<and>
   invoked (snd (receiveUSBEvents [Data [4, 2, 0, 0x13, 0x81, 2]] (listening raising_handler))) =
     [\<lparr>button = ''start'', button2 = [], axis = ''z'', increment = - 127\<rparr>] \<and>
   out (hb (snd (receiveUSBEvents [Data [4, 2, 0, 0x13, 0x81, 2]] (listening raising_handler)))) =
     [] \<and>
   running (hb (snd (receiveUSBEvents [Data [4, 2, 0, 0x13, 0x81, 2]] (listening raising_handler))))"
proof -
  have r: "running (hb (listening raising_handler))"
    by (simp add: listening_def)
  show ?thesis
    using r by (simp add: raising_session_report)
      (simp add: listening_def raising_handler_def hb04_reset_def)
qed


text \<open>
  A handler that ends in \<^verbatim>\<open>SystemExit\<close>, which the statement above leaves aside. The
  bare \<^verbatim>\<open>except\<close> drops that exit as well: \<open>fatal\<close> has logged and cleared
  \<open>running\<close>, so the loop stops before the second report, and the call returns normally.
\<close>

lemma failing_session_report:
  "newUSBEvent [4, 2, 0, 0x13, 0x81, 2] (listening failing_handler) =
     (Inr (),
      (listening failing_handler)
        \<lparr>hb := snd (fatal ''### WHOOPS! I did a boo boo''
                 ((hb (listening failing_handler))\<lparr>axis_switch := ''z''\<rparr>)),
         invoked := invoked (listening failing_handler) @
           [\<lparr>button = ''start'', button2 = [], axis = ''z'', increment = - 127\<rparr>]\<rparr>)"
proof (rule newUSBEvent_handler_raises)
  show "length [4, 2, 0, 0x13, 0x81, 2 :: nat] = 6"
    by simp
  show "code2Axis ([4, 2, 0, 0x13, 0x81, 2] ! 3) = Some ''z''"
    by (simp add: axis_z)
  show "make_event [4, 2, 0, 0x13, 0x81, 2]
      ((hb (listening failing_handler))\<lparr>axis_switch := ''z''\<rparr>) =
      Inr \<lparr>button = ''start'', button2 = [], axis = ''z'', increment = - 127\<rparr>"
    by (rule event_start_z)
  show "machine_event_handler (listening failing_handler) = Some failing_handler"
    by (simp add: listening_def)
  show "failing_handler \<lparr>button = ''start'', button2 = [], axis = ''z'', increment = - 127\<rparr>
      ((hb (listening failing_handler))\<lparr>axis_switch := ''z''\<rparr>) =
      (Some (SystemExit 1),
       snd (fatal ''### WHOOPS! I did a boo boo''
         ((hb (listening failing_handler))\<lparr>axis_switch := ''z''\<rparr>)))"
    by (simp add: failing_handler_def fatal_def Let_def)
qed

lemma handler_exit_swallowed:
  "fst (receiveUSBEvents [Data [4, 2, 0, 0x13, 0x81, 2], Data [4, 0, 0, 0x11, 0, 0]]
         (listening failing_handler)) = Inr () \<and>
   length (invoked (snd (receiveUSBEvents
       [Data [4, 2, 0, 0x13, 0x81, 2], Data [4, 0, 0, 0x11, 0, 0]]
       (listening failing_handler)))) = 1 \<and>
   out (hb (snd (receiveUSBEvents
       [Data [4, 2, 0, 0x13, 0x81, 2], Data [4, 0, 0, 0x11, 0, 0]]
       (listening failing_handler)))) =
     [Print ''### FATAL: ### WHOOPS! I did a boo boo'', Traceback] \<and>
   \<not> running (hb (snd (receiveUSBEvents
       [Data [4, 2, 0, 0x13, 0x81, 2], Data [4, 0, 0, 0x11, 0, 0]]
       (listening failing_handler))))"
proof -
  have r: "running (hb (listening failing_handler))"
    by (simp add: listening_def)
  have f: "\<not> running (snd (fatal ''### WHOOPS! I did a boo boo''
      ((hb (listening failing_handler))\<lparr>axis_switch := ''z''\<rparr>)))"
    by (simp add: fatal_def print_def disconnect_def Let_def)
  have o: "out (snd (fatal ''### WHOOPS! I did a boo boo''
      ((hb (listening failing_handler))\<lparr>axis_switch := ''z''\<rparr>))) =
      [Print ''### FATAL: ### WHOOPS! I did a boo boo'', Traceback]"
    by (simp add: fatal_def print_def disconnect_def listening_def hb04_reset_def Let_def)
  show ?thesis
    using r f o by (simp add: failing_session_report) (simp add: listening_def)
qed


section \<open>Display attributes\<close>

lemma set_display_attribute_unknown:
  assumes "attribute \<notin> set display_attributes"
  shows "set_display_attribute attribute self = (Inl (NameError ''value''), self)"
  using assms by (simp add: set_display_attribute_def)

text \<open>
  C8. An attribute in none of the three tables is claimed to be a no-op that prints a
  warning and returns normally. The fields are indeed left unchanged, but the warning is
  never printed: building it raises NameError, which leaves \<open>set_display_attribute\<close>.
\<close>

theorem set_display_attribute_bogus:
  "''bogus'' \<notin> set display_attributes \<and>
   set_display_attribute ''bogus'' hb04_reset = (Inl (NameError ''value''), hb04_reset)"
  by (simp add: set_display_attribute_def display_attributes_def units_values_def
      icon_values_def multiplier_values_def)


section \<open>Display refresh\<close>

text \<open>
  A refresh only appends to the output, and on failure goes through \<open>fatal\<close>, which also
  clears \<open>running\<close> and sets \<open>disconnecting\<close>. Everything else, the axes included, is
  left as it was.
\<close>

lemma make_packets_pad:
  "make_packets (pad_data data) =
     Inr (map (\<lambda>k. 0x6 # take 7 (drop (7 * k) (pad_data data))) [0..<6], 42)"
proof -
  have "7 * 6 \<le> length (pad_data data)"
    by (simp add: pad_data_eq)
  then show ?thesis
    unfolding make_packets_def using packets_upto[of 6 "pad_data data"] by simp
qed

lemma send_packets_frame:
  "\<exists>sent. snd (send_packets ps self) = self\<lparr>out := out self @ sent\<rparr>"
proof (induction ps arbitrary: self)
  case Nil
  have "snd (send_packets [] self) = self\<lparr>out := out self @ []\<rparr>"
    by simp
  then show ?case ..
next
  case (Cons p ps)
  show ?case
  proof (cases "list_ex (\<lambda>b. 256 \<le> b) p")
    case True
    then have "snd (send_packets (p # ps) self) = self\<lparr>out := out self @ []\<rparr>"
      by simp
    then show ?thesis ..
  next
    case False
    from Cons[of "self\<lparr>out := out self @ [ctrl_transfer p]\<rparr>"]
    obtain sent where "snd (send_packets ps (self\<lparr>out := out self @ [ctrl_transfer p]\<rparr>)) =
        self\<lparr>out := out self @ [ctrl_transfer p]\<rparr>\<lparr>out := out (self\<lparr>out := out self @ [ctrl_transfer p]\<rparr>) @ sent\<rparr>"
      by blast
    then have "snd (send_packets (p # ps) self) = self\<lparr>out := out self @ (ctrl_transfer p # sent)\<rparr>"
      using False by simp
    then show ?thesis ..
  qed
qed

lemma updateDisplay_frame:
  "\<exists>sent. snd (updateDisplay self) = self\<lparr>out := out self @ sent\<rparr>"
proof (cases "updateDisplay_data self")
  case (Inl e)
  then have "snd (updateDisplay self) = self\<lparr>out := out self @ []\<rparr>"
    by (simp add: updateDisplay_def)
  then show ?thesis ..
next
  case (Inr data)
  then show ?thesis
    using send_packets_frame
    by (simp add: updateDisplay_def sendData_def make_packets_pad)
qed

lemma forceDisplayUpdate_frame:
  "\<exists>sent r d. snd (forceDisplayUpdate self) =
     self\<lparr>running := r, disconnecting := d, out := out self @ sent\<rparr>"
proof -
  obtain sent where u: "snd (updateDisplay self) = self\<lparr>out := out self @ sent\<rparr>"
    using updateDisplay_frame by blast
  obtain res self' where r: "updateDisplay self = (res, self')"
    by (cases "updateDisplay self")
  with u have s': "self' = self\<lparr>out := out self @ sent\<rparr>"
    by simp
  show ?thesis
  proof (cases res)
    case (Inr u)
    then have "snd (forceDisplayUpdate self) =
        self\<lparr>running := running self, disconnecting := disconnecting self, out := out self @ sent\<rparr>"
      using r s' by (simp add: forceDisplayUpdate_def)
    then show ?thesis by blast
  next
    case (Inl e)
    show ?thesis
    proof (cases "is_Exception e")
      case False
      then have "snd (forceDisplayUpdate self) =
        self\<lparr>running := running self, disconnecting := disconnecting self, out := out self @ sent\<rparr>"
        using r s' Inl by (simp add: forceDisplayUpdate_def)
      then show ?thesis by blast
    next
      case True
      then have "snd (forceDisplayUpdate self) =
        self\<lparr>running := False, disconnecting := True,
          out := out self @ (sent @ [Print (''### FATAL: updateDisplay failing with '' @ str_exn e), Traceback]
             @ (if reattach self then [AttachKernelDriver] else []))\<rparr>"
        using r s' Inl
        by (simp add: forceDisplayUpdate_def fatal_def print_def disconnect_def Let_def)
      then show ?thesis by blast
    qed
  qed
qed

lemma forceDisplayUpdate_axis_list:
  "axis_list (snd (forceDisplayUpdate self)) = axis_list self"
proof -
  obtain sent r d where "snd (forceDisplayUpdate self) =
      self\<lparr>running := r, disconnecting := d, out := out self @ sent\<rparr>"
    using forceDisplayUpdate_frame by blast
  then show ?thesis by simp
qed

lemma sendData_ok:
  assumes "list_all (\<lambda>b. b < 256) data"
  shows "sendData data self =
     (Inr (), self\<lparr>out := out self @
        map ctrl_transfer (map (\<lambda>k. 0x6 # take 7 (drop (7 * k) (pad_data data))) [0..<6])\<rparr>)"
proof -
  have "\<forall>b \<in> set (pad_data data). b < 256"
    using assms by (auto simp: pad_data_eq list_all_iff)
  then have "\<forall>p \<in> set (map (\<lambda>k. 0x6 # take 7 (drop (7 * k) (pad_data data))) [0..<6]).
      \<forall>b \<in> set p. b < 256"
    by (auto dest!: in_set_takeD in_set_dropD)
  then show ?thesis
    by (simp only: sendData_def make_packets_pad sum.case prod.case send_packets_ok)
qed

lemma forceDisplayUpdate_ok:
  assumes "updateDisplay_data self = Inr data" "list_all (\<lambda>b. b < 256) data"
  shows "forceDisplayUpdate self =
     (Inr (), self\<lparr>out := out self @
        map ctrl_transfer (map (\<lambda>k. 0x6 # take 7 (drop (7 * k) (pad_data data))) [0..<6])\<rparr>)"
  using assms by (simp add: forceDisplayUpdate_def updateDisplay_def sendData_ok)


section \<open>Setting an axis\<close>

lemma axis_value_known:
  assumes "axis_list self axis_name = Some ax"
  shows "axis_value axis_name wc mc self =
     forceDisplayUpdate (self\<lparr>axis_list := (axis_list self)(axis_name \<mapsto>
        ax\<lparr>work_coordinate := (case wc of None \<Rightarrow> work_coordinate ax | Some w \<Rightarrow> w),
           machine_coordinate := (case mc of None \<Rightarrow> machine_coordinate ax | Some m \<Rightarrow> m)\<rparr>)\<rparr>)"
  using assms
  by (simp add: axis_value_def axis_value_try_def Let_def split: option.splits)

text \<open>
  With one coordinate given, only that field of that axis is stored; the other coordinate
  and every other axis stay as they were, whatever the refresh does afterwards.
\<close>

lemma axis_value_one_coordinate:
  assumes "axis_list self axis_name = Some ax"
  shows "axis_list (snd (axis_value axis_name (Some w) None self)) =
           (axis_list self)(axis_name \<mapsto> ax\<lparr>work_coordinate := w\<rparr>) \<and>
         axis_list (snd (axis_value axis_name None (Some m) self)) =
           (axis_list self)(axis_name \<mapsto> ax\<lparr>machine_coordinate := m\<rparr>)"
  using assms by (simp add: axis_value_known forceDisplayUpdate_axis_list)

text \<open>The eight axes of a fresh driver.\<close>

lemma reset_axes:
  "dom (axis_list hb04_reset) =
     {''x'', ''y'', ''z'', ''a'', ''feed'', ''feed-actual'', ''spindle'', ''spindle-actual''}"
  by (auto simp: hb04_reset_def dict_of_def dom_def split: if_splits)

lemma reset_x: "axis_list hb04_reset ''x'' = Some (Axis_init ''x'' False)"
  by (simp add: hb04_reset_def dict_of_def)

lemma reset_feed: "axis_list hb04_reset ''feed'' = Some (Axis_init ''feed'' True)"
  by (simp add: hb04_reset_def dict_of_def)

lemma reset_q: "axis_list hb04_reset ''q'' = None"
  by (simp add: hb04_reset_def dict_of_def)

text \<open>
  When the frame of the updated state can be encoded, the refresh sends its six packets
  and the call returns normally.
\<close>

lemma axis_value_sends:
  assumes "axis_list self axis_name = Some ax"
    and "updateDisplay_data
           (self\<lparr>axis_list := (axis_list self)(axis_name \<mapsto> ax\<lparr>work_coordinate := w\<rparr>)\<rparr>) =
         Inr data"
    and "list_all (\<lambda>b. b < 256) data"
  shows "axis_value axis_name (Some w) None self =
     (Inr (),
      self\<lparr>axis_list := (axis_list self)(axis_name \<mapsto> ax\<lparr>work_coordinate := w\<rparr>),
           out := out self @
             map ctrl_transfer
               (map (\<lambda>k. 0x6 # take 7 (drop (7 * k) (pad_data data))) [0..<6])\<rparr>)"
  using assms(1) forceDisplayUpdate_ok [OF assms(2) assms(3)]
  by (simp add: axis_value_known)

lemmas frame_defs =
  updateDisplay_data_def hb04_reset_def dict_of_def getattr_axis_def bindE_def Axis_init_def
  wc_display_def mc_display_def actual_display_def setrate_display_def actual_def
  setrate_def display_def encode_s16_def limit_num_def py_int_def to_bytes2_little_def

lemma encode_float_3_2: "encode_float (3 / 2) = Inr [1, 0, 0x88, 0x13]"
  using encode_float_whole[of "3 / 2" 15000] by simp

text \<open>Setting x to 1.5 on a fresh driver sends the frame with the new value in its slot.\<close>

lemma axis_value_x_example:
  "axis_value ''x'' (Some (3 / 2)) None hb04_reset =
     (Inr (),
      hb04_reset
        \<lparr>axis_list :=
           (axis_list hb04_reset)(''x'' \<mapsto> (Axis_init ''x'' False)\<lparr>work_coordinate := 3 / 2\<rparr>),
         out :=
           [ctrl_transfer [6, 0xFE, 0xFD, 0x0C, 1, 0, 0x88, 0x13],
            ctrl_transfer [6, 0, 0, 0, 0, 0, 0, 0],
            ctrl_transfer [6, 0, 0, 0, 0, 0, 0, 0],
            ctrl_transfer [6, 0, 0, 0, 0, 0, 0, 0],
            ctrl_transfer [6, 0, 0, 0, 0, 0, 0, 0],
            ctrl_transfer [6, 1, 0, 0, 0, 0, 0, 0]]\<rparr>)"
proof -
  define data where "data = [0xFE, 0xFD, 0x0C, 1, 0, 0x88, 0x13] @ replicate 28 0 @ [1, 0 :: nat]"
  define pkts where "pkts = map (\<lambda>k. 0x6 # take 7 (drop (7 * k) (pad_data data))) [0..<6]"
  have frame: "updateDisplay_data
      (hb04_reset\<lparr>axis_list :=
         (axis_list hb04_reset)(''x'' \<mapsto> (Axis_init ''x'' False)\<lparr>work_coordinate := 3 / 2\<rparr>)\<rparr>) =
      Inr data"
    by (simp add: frame_defs data_def encode_float_0 encode_float_3_2 Let_def eval_nat_numeral)
  have bytes: "list_all (\<lambda>b. b < 256) data"
    by (simp add: data_def list_all_iff)
  have pk: "pkts =
      [[6, 0xFE, 0xFD, 0x0C, 1, 0, 0x88, 0x13], [6, 0, 0, 0, 0, 0, 0, 0],
       [6, 0, 0, 0, 0, 0, 0, 0], [6, 0, 0, 0, 0, 0, 0, 0], [6, 0, 0, 0, 0, 0, 0, 0],
       [6, 1, 0, 0, 0, 0, 0, 0]]"
    by (simp add: pkts_def data_def pad_data_eq upt_rec eval_nat_numeral)
  have o: "out hb04_reset = []"
    by (simp add: hb04_reset_def)
  show ?thesis
    using axis_value_sends [OF reset_x frame bytes]
    by (simp only: pkts_def[symmetric] pk o append_Nil list.map)
qed

text \<open>
  C9. \<open>axis_value\<close> on a known axis with one coordinate is claimed to store that field
  and then force a display refresh. The field is stored, but for the feed axis set to
  40000 no frame is sent: building the frame raises the OverflowError of \<open>encode_s16\<close>,
  the refresh ends in \<open>fatal\<close>, and the call leaves through \<^verbatim>\<open>SystemExit\<close> with
  nothing handed to the device.
\<close>

theorem axis_value_refresh_fails:
  "axis_list hb04_reset ''feed'' = Some (Axis_init ''feed'' True) \<and>
   fst (axis_value ''feed'' (Some 40000) None hb04_reset) = Inl (SystemExit 1) \<and>
   axis_list (snd (axis_value ''feed'' (Some 40000) None hb04_reset)) =
     (axis_list hb04_reset)
       (''feed'' \<mapsto> (Axis_init ''feed'' True)\<lparr>work_coordinate := 40000\<rparr>) \<and>
   out (snd (axis_value ''feed'' (Some 40000) None hb04_reset)) =
     [Print ''### FATAL: updateDisplay failing with int too big to convert'', Traceback] \<and>
   \<not> running (snd (axis_value ''feed'' (Some 40000) None hb04_reset))"
proof -
  define s where "s = hb04_reset\<lparr>axis_list :=
    (axis_list hb04_reset)(''feed'' \<mapsto> (Axis_init ''feed'' True)\<lparr>work_coordinate := 40000\<rparr>)\<rparr>"
  have frame: "updateDisplay_data s = Inl (OverflowError ''int too big to convert'')"
    by (simp add: s_def frame_defs encode_float_0 Let_def)
  have o: "out s = []" "\<not> reattach s"
    by (simp_all add: s_def hb04_reset_def)
  have run: "forceDisplayUpdate s =
      (Inl (SystemExit 1),
       s\<lparr>out := [Print ''### FATAL: updateDisplay failing with int too big to convert'',
                 Traceback],
         running := False, disconnecting := True\<rparr>)"
    using o
    by (simp add: forceDisplayUpdate_def updateDisplay_def frame is_Exception_def str_exn_def
        fatal_def print_def disconnect_def Let_def)
  have av: "axis_value ''feed'' (Some 40000) None hb04_reset = forceDisplayUpdate s"
    using axis_value_known [OF reset_feed, of "Some 40000" None] by (simp add: s_def Axis_init_def)
  have al: "axis_list s =
      (axis_list hb04_reset)(''feed'' \<mapsto> (Axis_init ''feed'' True)\<lparr>work_coordinate := 40000\<rparr>)"
    by (simp add: s_def)
  show ?thesis
    by (simp add: reset_feed av run al)
qed

text \<open>An unknown axis.\<close>

lemma axis_value_unknown:
  assumes "axis_list self axis_name = None"
  shows "axis_value axis_name wc mc self =
     forceDisplayUpdate (snd (fatal (''### Can't find axis '' @ axis_name) self))"
  using assms by (simp add: axis_value_def axis_value_try_def split: prod.splits)

lemma reset_frame_after_fatal:
  "updateDisplay_data (snd (fatal msg hb04_reset)) =
     Inr ([0xFE, 0xFD, 0x0C] @ replicate 32 0 @ [1, 0])"
  by (simp add: frame_defs fatal_def print_def disconnect_def encode_float_0 Let_def
      eval_nat_numeral)

text \<open>
  C7. An axis name that is not among the driver's axes is claimed to end in the fatal
  path: log and terminate. \<open>fatal\<close> is called and logs, but its \<^verbatim>\<open>SystemExit\<close> is
  raised inside the \<^verbatim>\<open>try\<close> of \<open>axis_value\<close> and caught by the bare \<^verbatim>\<open>except: pass\<close>:
  the call goes on to refresh the display and returns normally.
\<close>

theorem axis_value_unknown_returns:
  "axis_list hb04_reset ''q'' = None \<and>
   fst (axis_value ''q'' (Some 1) None hb04_reset) = Inr () \<and>
   \<not> running (snd (axis_value ''q'' (Some 1) None hb04_reset)) \<and>
   out (snd (axis_value ''q'' (Some 1) None hb04_reset)) =
     [Print ''### FATAL: ### Can't find axis q'', Traceback,
      ctrl_transfer [6, 0xFE, 0xFD, 0x0C, 0, 0, 0, 0],
      ctrl_transfer [6, 0, 0, 0, 0, 0, 0, 0],
      ctrl_transfer [6, 0, 0, 0, 0, 0, 0, 0],
      ctrl_transfer [6, 0, 0, 0, 0, 0, 0, 0],
      ctrl_transfer [6, 0, 0, 0, 0, 0, 0, 0],
      ctrl_transfer [6, 1, 0, 0, 0, 0, 0, 0]]"
proof -
  define s where "s = snd (fatal (''### Can't find axis '' @ ''q'') hb04_reset)"
  define data where "data = [0xFE, 0xFD, 0x0C] @ replicate 32 0 @ [1, 0 :: nat]"
  define pkts where "pkts = map (\<lambda>k. 0x6 # take 7 (drop (7 * k) (pad_data data))) [0..<6]"
  have frame: "updateDisplay_data s = Inr data"
    unfolding s_def data_def by (rule reset_frame_after_fatal)
  have bytes: "list_all (\<lambda>b. b < 256) data"
    by (simp add: data_def list_all_iff)
  have "forceDisplayUpdate s = (Inr (), s\<lparr>out := out s @ map ctrl_transfer pkts\<rparr>)"
    unfolding pkts_def using frame bytes by (rule forceDisplayUpdate_ok)
  moreover have "axis_value ''q'' (Some 1) None hb04_reset = forceDisplayUpdate s"
    unfolding s_def using reset_q by (rule axis_value_unknown)
  ultimately have run: "axis_value ''q'' (Some 1) None hb04_reset =
      (Inr (), s\<lparr>out := out s @ map ctrl_transfer pkts\<rparr>)"
    by simp
  have pk: "pkts =
      [[6, 0xFE, 0xFD, 0x0C, 0, 0, 0, 0], [6, 0, 0, 0, 0, 0, 0, 0], [6, 0, 0, 0, 0, 0, 0, 0],
       [6, 0, 0, 0, 0, 0, 0, 0], [6, 0, 0, 0, 0, 0, 0, 0], [6, 1, 0, 0, 0, 0, 0, 0]]"
    by (simp add: pkts_def data_def pad_data_eq upt_rec eval_nat_numeral)
  have o: "out s = [Print ''### FATAL: ### Can't find axis q'', Traceback]"
    by (simp add: s_def fatal_def print_def disconnect_def hb04_reset_def Let_def)
  have r: "\<not> running s"
    by (simp add: s_def fatal_def print_def disconnect_def Let_def)
  show ?thesis
    by (simp add: reset_q run o pk r)
qed

end
